theory Spec2Isabelle
  imports Main "HOL-Library.Sublist" "HOL-Library.Multiset"
begin

section \<open>Event management backend: services over a relational store\<close>

text \<open>
  The development embeds the backend of the event management application: the two
  tables of \<^verbatim>\<open>db/schema.ts\<close>, the CRUD operations of \<^verbatim>\<open>BaseRepository\<close>, the queries of
  \<^verbatim>\<open>EventRepository\<close> and \<^verbatim>\<open>NotificationRepository\<close>, the methods of \<^verbatim>\<open>EventService\<close> and
  \<^verbatim>\<open>NotificationService\<close>, and the handlers \<^verbatim>\<open>listEvents\<close> and \<^verbatim>\<open>deleteEvent\<close> of
  \<^verbatim>\<open>OpenAPIServiceHandlers\<close>.

  Every method is \<^verbatim>\<open>async\<close> and runs its awaits in sequence, so a method is a function from
  the database before the call to its outcome and the database after it. Nothing wraps
  two writes in a transaction: when a later step throws, the earlier writes stay, and the
  functions below return the database as it is at the throw.

  The database is a pair of tables, each a list of rows in table order. Of the schema it
  keeps the column types, the defaults, the primary keys, the foreign key of a
  notification and its cascade, and the width of the \<^verbatim>\<open>varchar(255)\<close> columns; the syntax
  of a uuid is not part of it. What the database generates (\<^verbatim>\<open>gen_random_uuid()\<close>,
  \<^verbatim>\<open>now()\<close>), the clock read by \<^verbatim>\<open>new Date()\<close>, and the order in which the database returns
  the rows of a query that has no ORDER BY are arguments of the operation that uses them.
  A timestamp is a number of milliseconds, as \<^verbatim>\<open>Date\<close> compares by \<^verbatim>\<open>valueOf()\<close>. Strings are
  taken as ASCII, one character a byte.
\<close>

subsection \<open>Rows and inputs (db/schema.ts)\<close>

type_synonym uuid = string
type_synonym timestamp = int

datatype event_status = Draft | Published | Archived

text \<open>\<^verbatim>\<open>schema.Event\<close>, the select type of table \<^verbatim>\<open>events\<close>; a nullable column is an option.\<close>

record event =
  eid :: uuid
  name :: string
  description :: "string option"
  status :: event_status
  startDate :: timestamp
  endDate :: "timestamp option"
  location :: "string option"
  tags :: "string list option"
  notificationCount :: int
  createdAt :: timestamp
  updatedAt :: timestamp

text \<open>
  \<^verbatim>\<open>schema.NewEvent\<close>, the insert type: a column with a default may be left out. On insert
  \<^verbatim>\<open>null\<close> and \<^verbatim>\<open>undefined\<close> both store NULL in a nullable column, so they share \<open>None\<close>.
\<close>

record new_event =
  new_id :: "uuid option"
  new_name :: string
  new_description :: "string option"
  new_status :: "event_status option"
  new_startDate :: timestamp
  new_endDate :: "timestamp option"
  new_location :: "string option"
  new_tags :: "string list option"
  new_notificationCount :: "int option"
  new_createdAt :: "timestamp option"
  new_updatedAt :: "timestamp option"

text \<open>
  \<^verbatim>\<open>Partial<schema.Event>\<close>, the change set of an update: \<open>None\<close> is a key that is absent
  (\<^verbatim>\<open>undefined\<close>), and for a nullable column \<open>Some None\<close> is the key present with \<^verbatim>\<open>null\<close>.
  The key \<^verbatim>\<open>id\<close> is left out: no caller changes a primary key.
\<close>

record event_changes =
  c_name :: "string option"
  c_description :: "string option option"
  c_status :: "event_status option"
  c_startDate :: "timestamp option"
  c_endDate :: "timestamp option option"
  c_location :: "string option option"
  c_tags :: "string list option option"
  c_notificationCount :: "int option"
  c_createdAt :: "timestamp option"
  c_updatedAt :: "timestamp option"

text \<open>\<^verbatim>\<open>schema.Notification\<close>; \<^verbatim>\<open>isRead\<close> is the integer column \<^verbatim>\<open>is_read\<close>.\<close>

record notification =
  nid :: uuid
  eventId :: uuid
  title :: string
  message :: "string option"
  isRead :: int
  n_createdAt :: timestamp

record new_notification =
  nn_id :: "uuid option"
  nn_eventId :: uuid
  nn_title :: string
  nn_message :: "string option"
  nn_isRead :: "int option"
  nn_createdAt :: "timestamp option"

record db =
  events :: "event list"
  notifications :: "notification list"

text \<open>
  Every \<^verbatim>\<open>throw\<close> of the source is \<^verbatim>\<open>new Error(message)\<close>. The constructor is the kind the
  error has in the taxonomy of the specification, its argument the message of the source.
  \<open>DbError\<close> is an error raised by the database itself.
\<close>

datatype error =
    NotFound string
  | ValidationFailed string
  | InvalidTransition string
  | InvalidArgument string
  | DbError string

definition no_changes :: event_changes where
  "no_changes = \<lparr> c_name = None, c_description = None, c_status = None, c_startDate = None,
                   c_endDate = None, c_location = None, c_tags = None,
                   c_notificationCount = None, c_createdAt = None, c_updatedAt = None \<rparr>"

text \<open>A template literal that puts a value between double quotes.\<close>

definition quoted :: "string \<Rightarrow> string" where
  "quoted s = CHR 0x22 # s @ [CHR 0x22]"

subsection \<open>Columns of type varchar(255)\<close>

text \<open>
  \<^verbatim>\<open>name\<close> and \<^verbatim>\<open>location\<close> of an event and \<^verbatim>\<open>title\<close> of a notification are
  \<^verbatim>\<open>varchar(255)\<close>. PostgreSQL stores a value of at most 255 characters as it is; of a longer
  one it cuts the excess when the excess is all spaces, and otherwise raises an error and
  the statement writes nothing.
\<close>

definition varchar255 :: "string \<Rightarrow> error + string" where
  "varchar255 v =
     (if length v \<le> 255 then Inr v
      else if list_all (\<lambda>c. c = CHR '' '') (drop 255 v) then Inr (take 255 v)
      else Inl (DbError ''value too long for type character varying(255)''))"

text \<open>The same for a value that may be absent or NULL.\<close>

definition varchar255_null :: "string option \<Rightarrow> error + string option" where
  "varchar255_null v =
     (case v of
        None \<Rightarrow> Inr None
      | Some t \<Rightarrow> (case varchar255 t of Inl err \<Rightarrow> Inl err | Inr t' \<Rightarrow> Inr (Some t')))"

subsection \<open>BaseRepository, on table events\<close>

text \<open>\<^verbatim>\<open>findById\<close>: \<^verbatim>\<open>select ... where id = $1 limit 1\<close>, then \<^verbatim>\<open>results[0]\<close>.\<close>

definition eventRepo_findById :: "db \<Rightarrow> uuid \<Rightarrow> event option" where
  "eventRepo_findById s i = find (\<lambda>e. eid e = i) (events s)"

text \<open>
  \<^verbatim>\<open>create\<close>: \<^verbatim>\<open>insert ... returning\<close>. \<open>gen_id\<close> is what \<^verbatim>\<open>gen_random_uuid()\<close> yields and
  \<open>now\<close> what \<^verbatim>\<open>now()\<close> yields, used for the columns the input leaves out. The values of
  \<^verbatim>\<open>name\<close> and \<^verbatim>\<open>location\<close> must go into their columns, and an insert whose key is already
  in the table violates the primary key.
\<close>

definition new_event_row :: "uuid \<Rightarrow> timestamp \<Rightarrow> new_event \<Rightarrow> event" where
  "new_event_row gen_id now d =
     \<lparr> eid = (case new_id d of Some i \<Rightarrow> i | None \<Rightarrow> gen_id),
       name = new_name d,
       description = new_description d,
       status = (case new_status d of Some st \<Rightarrow> st | None \<Rightarrow> Draft),
       startDate = new_startDate d,
       endDate = new_endDate d,
       location = new_location d,
       tags = new_tags d,
       notificationCount = (case new_notificationCount d of Some n \<Rightarrow> n | None \<Rightarrow> 0),
       createdAt = (case new_createdAt d of Some t \<Rightarrow> t | None \<Rightarrow> now),
       updatedAt = (case new_updatedAt d of Some t \<Rightarrow> t | None \<Rightarrow> now) \<rparr>"

definition eventRepo_create :: "db \<Rightarrow> uuid \<Rightarrow> timestamp \<Rightarrow> new_event \<Rightarrow> error + (event \<times> db)" where
  "eventRepo_create s gen_id now d =
     (case varchar255 (new_name d) of
        Inl err \<Rightarrow> Inl err
      | Inr n \<Rightarrow>
          (case varchar255_null (new_location d) of
             Inl err \<Rightarrow> Inl err
           | Inr l \<Rightarrow>
               (let row = new_event_row gen_id now (d\<lparr>new_name := n, new_location := l\<rparr>) in
                if eid row \<in> set (map eid (events s))
                then Inl (DbError ''duplicate key value violates unique constraint events_pkey'')
                else Inr (row, s\<lparr>events := events s @ [row]\<rparr>))))"

text \<open>
  \<^verbatim>\<open>update\<close>: \<^verbatim>\<open>update ... set data where id = $1 returning\<close>, then \<^verbatim>\<open>results[0]\<close>. A key of
  \<^verbatim>\<open>data\<close> that is \<^verbatim>\<open>undefined\<close> leaves its column alone; \<^verbatim>\<open>null\<close> stores NULL. A new
  \<^verbatim>\<open>name\<close> or \<^verbatim>\<open>location\<close> must go into its column.
\<close>

definition fit_changes :: "event_changes \<Rightarrow> error + event_changes" where
  "fit_changes c =
     (case varchar255_null (c_name c) of
        Inl err \<Rightarrow> Inl err
      | Inr n \<Rightarrow>
          (case (case c_location c of
                   None \<Rightarrow> Inr None
                 | Some v \<Rightarrow> (case varchar255_null v of Inl err \<Rightarrow> Inl err | Inr l \<Rightarrow> Inr (Some l))) of
             Inl err \<Rightarrow> Inl err
           | Inr l \<Rightarrow> Inr (c\<lparr>c_name := n, c_location := l\<rparr>)))"

definition apply_changes :: "event_changes \<Rightarrow> event \<Rightarrow> event" where
  "apply_changes c e =
     e\<lparr> name := (case c_name c of Some v \<Rightarrow> v | None \<Rightarrow> name e),
        description := (case c_description c of Some v \<Rightarrow> v | None \<Rightarrow> description e),
        status := (case c_status c of Some v \<Rightarrow> v | None \<Rightarrow> status e),
        startDate := (case c_startDate c of Some v \<Rightarrow> v | None \<Rightarrow> startDate e),
        endDate := (case c_endDate c of Some v \<Rightarrow> v | None \<Rightarrow> endDate e),
        location := (case c_location c of Some v \<Rightarrow> v | None \<Rightarrow> location e),
        tags := (case c_tags c of Some v \<Rightarrow> v | None \<Rightarrow> tags e),
        notificationCount := (case c_notificationCount c of Some v \<Rightarrow> v | None \<Rightarrow> notificationCount e),
        createdAt := (case c_createdAt c of Some v \<Rightarrow> v | None \<Rightarrow> createdAt e),
        updatedAt := (case c_updatedAt c of Some v \<Rightarrow> v | None \<Rightarrow> updatedAt e) \<rparr>"

definition eventRepo_update :: "db \<Rightarrow> uuid \<Rightarrow> event_changes \<Rightarrow> error + (event option \<times> db)" where
  "eventRepo_update s i data =
     (case fit_changes data of
        Inl err \<Rightarrow> Inl err
      | Inr c \<Rightarrow>
          (let returning = map (apply_changes c) (filter (\<lambda>e. eid e = i) (events s)) in
           Inr ((case returning of [] \<Rightarrow> None | r # _ \<Rightarrow> Some r),
                s\<lparr>events := map (\<lambda>e. if eid e = i then apply_changes c e else e) (events s)\<rparr>)))"

text \<open>
  \<^verbatim>\<open>delete\<close>: \<^verbatim>\<open>delete ... where id = $1 returning\<close>; the result says whether a row went.
  The foreign key of \<^verbatim>\<open>notifications.event_id\<close> is \<^verbatim>\<open>ON DELETE cascade\<close>.
\<close>

definition eventRepo_delete :: "db \<Rightarrow> uuid \<Rightarrow> bool \<times> db" where
  "eventRepo_delete s i =
     (filter (\<lambda>e. eid e = i) (events s) \<noteq> [],
      s\<lparr>events := filter (\<lambda>e. eid e \<noteq> i) (events s),
        notifications := filter (\<lambda>n. eventId n \<noteq> i) (notifications s)\<rparr>)"

subsection \<open>BaseRepository and NotificationRepository, on table notifications\<close>

definition notificationRepo_findById :: "db \<Rightarrow> uuid \<Rightarrow> notification option" where
  "notificationRepo_findById s i = find (\<lambda>n. nid n = i) (notifications s)"

definition new_notification_row :: "uuid \<Rightarrow> timestamp \<Rightarrow> new_notification \<Rightarrow> notification" where
  "new_notification_row gen_id now d =
     \<lparr> nid = (case nn_id d of Some i \<Rightarrow> i | None \<Rightarrow> gen_id),
       eventId = nn_eventId d,
       title = nn_title d,
       message = nn_message d,
       isRead = (case nn_isRead d of Some r \<Rightarrow> r | None \<Rightarrow> 0),
       n_createdAt = (case nn_createdAt d of Some t \<Rightarrow> t | None \<Rightarrow> now) \<rparr>"

text \<open>
  \<^verbatim>\<open>create\<close> on notifications: \<^verbatim>\<open>title\<close> must go into its column, the primary key must be
  new and \<^verbatim>\<open>event_id\<close> must be the key of a row of \<^verbatim>\<open>events\<close>.
\<close>

definition notificationRepo_create ::
  "db \<Rightarrow> uuid \<Rightarrow> timestamp \<Rightarrow> new_notification \<Rightarrow> error + (notification \<times> db)" where
  "notificationRepo_create s gen_id now d =
     (case varchar255 (nn_title d) of
        Inl err \<Rightarrow> Inl err
      | Inr t \<Rightarrow>
          (let row = new_notification_row gen_id now (d\<lparr>nn_title := t\<rparr>) in
           if nid row \<in> set (map nid (notifications s))
           then Inl (DbError ''duplicate key value violates unique constraint notifications_pkey'')
           else if eventId row \<notin> set (map eid (events s))
           then Inl (DbError ''violates foreign key constraint notifications_event_id_events_id_fk'')
           else Inr (row, s\<lparr>notifications := notifications s @ [row]\<rparr>)))"

text \<open>The notification an event method records: only \<^verbatim>\<open>eventId\<close>, \<^verbatim>\<open>title\<close>, \<^verbatim>\<open>message\<close> are given.\<close>

definition lifecycle_notification :: "uuid \<Rightarrow> string \<Rightarrow> string \<Rightarrow> new_notification" where
  "lifecycle_notification i t m =
     \<lparr> nn_id = None, nn_eventId = i, nn_title = t, nn_message = Some m,
       nn_isRead = None, nn_createdAt = None \<rparr>"

text \<open>\<^verbatim>\<open>NotificationRepository.markAsRead\<close>: \<^verbatim>\<open>update ... set is_read = 1 where id = $1 returning\<close>.\<close>

definition notificationRepo_markAsRead :: "db \<Rightarrow> uuid \<Rightarrow> notification list \<times> db" where
  "notificationRepo_markAsRead s i =
     (map (\<lambda>n. n\<lparr>isRead := 1\<rparr>) (filter (\<lambda>n. nid n = i) (notifications s)),
      s\<lparr>notifications := map (\<lambda>n. if nid n = i then n\<lparr>isRead := 1\<rparr> else n) (notifications s)\<rparr>)"

text \<open>
  \<^verbatim>\<open>NotificationRepository.markAllAsReadForEvent\<close>:
  \<^verbatim>\<open>update ... set is_read = 1 where event_id = $1 returning\<close>.
\<close>

definition notificationRepo_markAllAsReadForEvent :: "db \<Rightarrow> uuid \<Rightarrow> notification list \<times> db" where
  "notificationRepo_markAllAsReadForEvent s e =
     (map (\<lambda>n. n\<lparr>isRead := 1\<rparr>) (filter (\<lambda>n. eventId n = e) (notifications s)),
      s\<lparr>notifications := map (\<lambda>n. if eventId n = e then n\<lparr>isRead := 1\<rparr> else n) (notifications s)\<rparr>)"

subsection \<open>EventService\<close>

text \<open>
  What JavaScript takes for true in \<^verbatim>\<open>a || b\<close> and \<^verbatim>\<open>if (a)\<close>: a string unless it is empty, a
  \<^verbatim>\<open>Date\<close> always, \<^verbatim>\<open>null\<close> and \<^verbatim>\<open>undefined\<close> never. A status is one of three non-empty strings.
\<close>

definition truthy_string :: "string option \<Rightarrow> bool" where
  "truthy_string v = (case v of Some t \<Rightarrow> t \<noteq> [] | None \<Rightarrow> False)"

definition truthy_date :: "timestamp option option \<Rightarrow> bool" where
  "truthy_date v = (case v of Some (Some d) \<Rightarrow> True | _ \<Rightarrow> False)"

text \<open>\<^verbatim>\<open>formatForResponse\<close> returns the entity as it is, in both services.\<close>

definition formatForResponse :: "'a \<Rightarrow> 'a" where
  "formatForResponse entity = entity"

text \<open>\<^verbatim>\<open>validateEventDates\<close>: \<^verbatim>\<open>if (endDate && endDate <= startDate) throw\<close>.\<close>

definition validateEventDates :: "timestamp \<Rightarrow> timestamp option \<Rightarrow> error + unit" where
  "validateEventDates sd ed =
     (case ed of
        Some e \<Rightarrow> if e \<le> sd then Inl (ValidationFailed ''End date must be after start date'')
                  else Inr ()
      | None \<Rightarrow> Inr ())"

definition event_get :: "db \<Rightarrow> uuid \<Rightarrow> error + event" where
  "event_get s i =
     (case eventRepo_findById s i of
        None \<Rightarrow> Inl (NotFound ''Event not found'')
      | Some found \<Rightarrow> Inr (formatForResponse found))"

text \<open>
  \<^verbatim>\<open>EventService.create\<close>. \<open>now\<close> is the clock, \<open>gen_eid\<close> and \<open>gen_nid\<close> the keys the
  database generates for the event and for its notification.
\<close>

definition event_create ::
  "db \<Rightarrow> new_event \<Rightarrow> timestamp \<Rightarrow> uuid \<Rightarrow> uuid \<Rightarrow> (error + event) \<times> db" where
  "event_create s d now gen_eid gen_nid =
     (case validateEventDates (new_startDate d) (new_endDate d) of
        Inl err \<Rightarrow> (Inl err, s)
      | Inr _ \<Rightarrow>
          (let eventData = d\<lparr> new_status := Some (case new_status d of Some st \<Rightarrow> st | None \<Rightarrow> Draft),
                              new_updatedAt := Some now \<rparr> in
           case eventRepo_create s gen_eid now eventData of
             Inl err \<Rightarrow> (Inl err, s)
           | Inr (created, s1) \<Rightarrow>
               (case notificationRepo_create s1 gen_nid now
                       (lifecycle_notification (eid created) ''Event Created''
                          (''Event '' @ quoted (name created) @ '' has been created'')) of
                  Inl err \<Rightarrow> (Inl err, s1)
                | Inr (_, s2) \<Rightarrow> (Inr (formatForResponse created), s2))))"

text \<open>
  \<^verbatim>\<open>EventService.update\<close>. The dates are checked when \<^verbatim>\<open>changes.startDate || changes.endDate\<close>
  is true, on \<^verbatim>\<open>changes.startDate || existing.startDate\<close> and
  \<^verbatim>\<open>changes.endDate || existing.endDate\<close>.
\<close>

definition event_update ::
  "db \<Rightarrow> uuid \<Rightarrow> event_changes \<Rightarrow> timestamp \<Rightarrow> uuid \<Rightarrow> (error + event) \<times> db" where
  "event_update s i changes now gen_nid =
     (case (if c_startDate changes \<noteq> None \<or> truthy_date (c_endDate changes) then
              (case eventRepo_findById s i of
                 None \<Rightarrow> Inl (NotFound ''Event not found'')
               | Some existing \<Rightarrow>
                   validateEventDates
                     (case c_startDate changes of Some d \<Rightarrow> d | None \<Rightarrow> startDate existing)
                     (case c_endDate changes of Some (Some d) \<Rightarrow> Some d | _ \<Rightarrow> endDate existing))
            else Inr ()) of
        Inl err \<Rightarrow> (Inl err, s)
      | Inr _ \<Rightarrow>
          (let updateData = changes\<lparr>c_updatedAt := Some now\<rparr> in
           case eventRepo_update s i updateData of
             Inl err \<Rightarrow> (Inl err, s)
           | Inr (updated, s1) \<Rightarrow>
               (case updated of
                  None \<Rightarrow> (Inl (NotFound ''Event not found''), s1)
                | Some u \<Rightarrow>
                    if c_status changes \<noteq> None \<or> truthy_string (c_name changes) \<or>
                       c_startDate changes \<noteq> None
                    then (case notificationRepo_create s1 gen_nid now
                                 (lifecycle_notification i ''Event Updated'' ''Event has been updated'') of
                            Inl err \<Rightarrow> (Inl err, s1)
                          | Inr (_, s2) \<Rightarrow> (Inr (formatForResponse u), s2))
                    else (Inr (formatForResponse u), s1))))"

definition event_remove :: "db \<Rightarrow> uuid \<Rightarrow> (error + bool) \<times> db" where
  "event_remove s i = (let (deleted, s1) = eventRepo_delete s i in (Inr deleted, s1))"

text \<open>
  \<^verbatim>\<open>publish\<close> and \<^verbatim>\<open>archive\<close> return \<^verbatim>\<open>formatForResponse(updated!)\<close>: the \<^verbatim>\<open>!\<close> checks nothing at
  run time, so the result is whatever the update returned, a row or \<^verbatim>\<open>undefined\<close>.
\<close>

definition publish :: "db \<Rightarrow> uuid \<Rightarrow> timestamp \<Rightarrow> uuid \<Rightarrow> (error + event option) \<times> db" where
  "publish s i now gen_nid =
     (case eventRepo_findById s i of
        None \<Rightarrow> (Inl (NotFound ''Event not found''), s)
      | Some ev \<Rightarrow>
          if status ev \<noteq> Draft
          then (Inl (InvalidTransition ''Only draft events can be published''), s)
          else
            (case eventRepo_update s i
                    (no_changes\<lparr>c_status := Some Published, c_updatedAt := Some now\<rparr>) of
               Inl err \<Rightarrow> (Inl err, s)
             | Inr (updated, s1) \<Rightarrow>
                 (case notificationRepo_create s1 gen_nid now
                         (lifecycle_notification i ''Event Published''
                            (''Event '' @ quoted (name ev) @ '' has been published'')) of
                    Inl err \<Rightarrow> (Inl err, s1)
                  | Inr (_, s2) \<Rightarrow> (Inr (formatForResponse updated), s2))))"

definition archive :: "db \<Rightarrow> uuid \<Rightarrow> timestamp \<Rightarrow> uuid \<Rightarrow> (error + event option) \<times> db" where
  "archive s i now gen_nid =
     (case eventRepo_findById s i of
        None \<Rightarrow> (Inl (NotFound ''Event not found''), s)
      | Some ev \<Rightarrow>
          if status ev = Archived
          then (Inl (InvalidTransition ''Event is already archived''), s)
          else
            (case eventRepo_update s i
                    (no_changes\<lparr>c_status := Some Archived, c_updatedAt := Some now\<rparr>) of
               Inl err \<Rightarrow> (Inl err, s)
             | Inr (updated, s1) \<Rightarrow>
                 (case notificationRepo_create s1 gen_nid now
                         (lifecycle_notification i ''Event Archived''
                            (''Event '' @ quoted (name ev) @ '' has been archived'')) of
                    Inl err \<Rightarrow> (Inl err, s1)
                  | Inr (_, s2) \<Rightarrow> (Inr (formatForResponse updated), s2))))"

text \<open>\<^verbatim>\<open>duplicate\<close> inserts through the repository, not through \<^verbatim>\<open>EventService.create\<close>.\<close>

definition duplicate :: "db \<Rightarrow> uuid \<Rightarrow> timestamp \<Rightarrow> uuid \<Rightarrow> uuid \<Rightarrow> (error + event) \<times> db" where
  "duplicate s i now gen_eid gen_nid =
     (case eventRepo_findById s i of
        None \<Rightarrow> (Inl (NotFound ''Event not found''), s)
      | Some ev \<Rightarrow>
          (let duplicateData =
                 \<lparr> new_id = None, new_name = name ev @ '' (Copy)'',
                   new_description = description ev, new_status = Some Draft,
                   new_startDate = startDate ev, new_endDate = endDate ev,
                   new_location = location ev, new_tags = tags ev,
                   new_notificationCount = None, new_createdAt = None, new_updatedAt = None \<rparr> in
           case eventRepo_create s gen_eid now duplicateData of
             Inl err \<Rightarrow> (Inl err, s)
           | Inr (duplicated, s1) \<Rightarrow>
               (case notificationRepo_create s1 gen_nid now
                       (lifecycle_notification (eid duplicated) ''Event Duplicated''
                          (''Event '' @ quoted (name duplicated) @ '' has been created as a copy'')) of
                  Inl err \<Rightarrow> (Inl err, s1)
                | Inr (_, s2) \<Rightarrow> (Inr (formatForResponse duplicated), s2))))"

subsection \<open>EventRepository.findAll and countWithFilters\<close>

text \<open>
  \<^verbatim>\<open>ilike(column, pattern)\<close> is the operator ILIKE of PostgreSQL, with no ESCAPE clause: in
  the pattern \<^verbatim>\<open>%\<close> stands for any run of characters, \<^verbatim>\<open>_\<close> for any one character, a
  backslash takes the next character literally, and letters match in either case. Strings
  are taken as ASCII. A pattern that ends in a lone backslash is an error in PostgreSQL;
  no pattern built below ends so, and \<open>like_match\<close> gives \<open>False\<close> there.
\<close>

definition toLower :: "char \<Rightarrow> char" where
  "toLower c =
     (case map_of (zip ''ABCDEFGHIJKLMNOPQRSTUVWXYZ'' ''abcdefghijklmnopqrstuvwxyz'') c of
        Some l \<Rightarrow> l
      | None \<Rightarrow> c)"

fun like_match :: "string \<Rightarrow> string \<Rightarrow> bool" where
  "like_match [] s = (s = [])"
| "like_match (p # ps) s =
     (if p = CHR ''%'' then
        (like_match ps s \<or> (case s of [] \<Rightarrow> False | c # t \<Rightarrow> like_match (p # ps) t))
      else if p = CHR ''_'' then
        (case s of [] \<Rightarrow> False | c # t \<Rightarrow> like_match ps t)
      else if p = CHR 0x5C then
        (case ps of
           [] \<Rightarrow> False
         | q # qs \<Rightarrow> (case s of [] \<Rightarrow> False | c # t \<Rightarrow> toLower c = toLower q \<and> like_match qs t))
      else (case s of [] \<Rightarrow> False | c # t \<Rightarrow> toLower c = toLower p \<and> like_match ps t))"

definition ilike :: "string \<Rightarrow> string \<Rightarrow> bool" where
  "ilike subject pattern = like_match pattern subject"

text \<open>
  The condition pushed for a search text:
  \<^verbatim>\<open>or(ilike(events.name, p), EXISTS (SELECT 1 FROM unnest(events.tags) tag WHERE tag ILIKE p))\<close>
  with \<^verbatim>\<open>p = `%${searchQuery}%`\<close>. \<^verbatim>\<open>unnest\<close> of NULL has no rows.
\<close>

definition searchCondition :: "string \<Rightarrow> event \<Rightarrow> bool" where
  "searchCondition searchQuery e =
     (let searchPattern = ''%'' @ searchQuery @ ''%'' in
      ilike (name e) searchPattern \<or>
      (case tags e of None \<Rightarrow> False | Some ts \<Rightarrow> list_ex (\<lambda>tag. ilike tag searchPattern) ts))"

definition status_label :: "event_status \<Rightarrow> string" where
  "status_label st = (case st of Draft \<Rightarrow> ''draft'' | Published \<Rightarrow> ''published'' | Archived \<Rightarrow> ''archived'')"

definition status_of_label :: "string \<Rightarrow> event_status option" where
  "status_of_label t =
     (if t = ''draft'' then Some Draft
      else if t = ''published'' then Some Published
      else if t = ''archived'' then Some Archived
      else None)"

text \<open>
  The list \<^verbatim>\<open>conditions\<close> of \<^verbatim>\<open>findAll\<close> and \<^verbatim>\<open>countWithFilters\<close>: \<^verbatim>\<open>if (searchQuery)\<close> and
  \<^verbatim>\<open>if (status)\<close> skip an absent and an empty string. \<^verbatim>\<open>eq(events.status, status)\<close> compares
  with a column of the enum type, which rejects a string that is not one of its labels.
\<close>

definition filter_conditions :: "string option \<Rightarrow> string option \<Rightarrow> error + (event \<Rightarrow> bool) list" where
  "filter_conditions searchQuery status_q =
     (let conditions = (case searchQuery of
                          Some t \<Rightarrow> if t \<noteq> [] then [searchCondition t] else []
                        | None \<Rightarrow> []) in
      case status_q of
        None \<Rightarrow> Inr conditions
      | Some l \<Rightarrow>
          if l = [] then Inr conditions
          else (case status_of_label l of
                  None \<Rightarrow> Inl (DbError ''invalid input value for enum event_status'')
                | Some st \<Rightarrow> Inr (conditions @ [\<lambda>e. status e = st])))"

text \<open>The conditions are joined by AND.\<close>

definition where_all :: "(event \<Rightarrow> bool) list \<Rightarrow> event \<Rightarrow> bool" where
  "where_all conditions e = list_all (\<lambda>c. c e) conditions"

text \<open>
  \<^verbatim>\<open>findAll\<close>: events left-joined with their notifications and grouped by the event key,
  each row with \<^verbatim>\<open>notificationCount: count(notifications.id)\<close> in place of the column; then
  \<^verbatim>\<open>limit(pageSize).offset((page - 1) * pageSize)\<close>. The primary key makes every group one
  event. The query has no ORDER BY, so the database is free in the order of the grouped
  rows: \<open>arrange\<close> is the order it takes for this query, a rearrangement of the rows it is
  given. The query builder writes the LIMIT clause only for a limit that is not negative
  and the OFFSET clause only for an offset that is not zero, and PostgreSQL rejects a
  negative OFFSET.
\<close>

definition with_notificationCount :: "db \<Rightarrow> event \<Rightarrow> event" where
  "with_notificationCount s e =
     e\<lparr>notificationCount := int (length (filter (\<lambda>n. eventId n = eid e) (notifications s)))\<rparr>"

definition findAll ::
  "db \<Rightarrow> (event list \<Rightarrow> event list) \<Rightarrow> int \<Rightarrow> int \<Rightarrow> string option \<Rightarrow> string option \<Rightarrow>
     error + event list" where
  "findAll s arrange page pageSize searchQuery status_q =
     (case filter_conditions searchQuery status_q of
        Inl err \<Rightarrow> Inl err
      | Inr conditions \<Rightarrow>
          (let rows = arrange (map (with_notificationCount s)
                                 (filter (where_all conditions) (events s)));
               offset = (page - 1) * pageSize in
           if offset < 0 then Inl (DbError ''OFFSET must not be negative'')
           else if pageSize < 0 then Inr (drop (nat offset) rows)
           else Inr (take (nat pageSize) (drop (nat offset) rows))))"

definition countWithFilters :: "db \<Rightarrow> string option \<Rightarrow> string option \<Rightarrow> error + int" where
  "countWithFilters s searchQuery status_q =
     (case filter_conditions searchQuery status_q of
        Inl err \<Rightarrow> Inl err
      | Inr conditions \<Rightarrow> Inr (int (length (filter (where_all conditions) (events s)))))"

text \<open>\<^verbatim>\<open>EventService.findWithFilters\<close> and the page object it returns.\<close>

record event_page =
  p_data :: "event list"
  p_total :: int
  p_page :: int
  p_pageSize :: int

definition findWithFilters ::
  "db \<Rightarrow> (event list \<Rightarrow> event list) \<Rightarrow> int \<Rightarrow> int \<Rightarrow> string option \<Rightarrow> string option \<Rightarrow>
     error + event_page" where
  "findWithFilters s arrange page pageSize searchQuery status_q =
     (case findAll s arrange page pageSize searchQuery status_q of
        Inl err \<Rightarrow> Inl err
      | Inr evs \<Rightarrow>
          (case countWithFilters s searchQuery status_q of
             Inl err \<Rightarrow> Inl err
           | Inr tot \<Rightarrow>
               Inr \<lparr> p_data = map formatForResponse evs, p_total = tot,
                     p_page = page, p_pageSize = pageSize \<rparr>))"

subsection \<open>OpenAPIServiceHandlers.listEvents\<close>

text \<open>
  \<^verbatim>\<open>Math.ceil(total / pageSize)\<close> on integers: the quotient of two numbers is infinite or
  not a number when the divisor is zero; otherwise its ceiling is the least integer that
  is not below it.
\<close>

datatype js_number = Num int | PosInfinity | NegInfinity | NaN

definition ceil_quotient :: "int \<Rightarrow> int \<Rightarrow> js_number" where
  "ceil_quotient a b =
     (if b = 0 then (if a = 0 then NaN else if 0 < a then PosInfinity else NegInfinity)
      else Num (- ((- a) div b)))"

record list_meta =
  m_page :: int
  m_pageSize :: int
  m_totalPages :: js_number
  m_totalItems :: int

record list_response =
  r_data :: "event list"
  r_meta :: list_meta

text \<open>
  \<open>page\<close> and \<open>pageSize\<close> are the numbers \<^verbatim>\<open>parseInt\<close> returns for the query parameters (or
  for the defaults \<^verbatim>\<open>'1'\<close> and \<^verbatim>\<open>'25'\<close>), \<open>q\<close> and \<open>status_q\<close> the query parameters \<^verbatim>\<open>q\<close> and
  \<^verbatim>\<open>status\<close>, and \<open>arrange\<close> the order the database takes for the query of \<^verbatim>\<open>findAll\<close>.
\<close>

definition listEvents ::
  "db \<Rightarrow> (event list \<Rightarrow> event list) \<Rightarrow> int \<Rightarrow> int \<Rightarrow> string option \<Rightarrow> string option \<Rightarrow>
     error + list_response" where
  "listEvents s arrange page pageSize q status_q =
     (case findWithFilters s arrange page pageSize q status_q of
        Inl err \<Rightarrow> Inl err
      | Inr result \<Rightarrow>
          Inr \<lparr> r_data = p_data result,
                r_meta = \<lparr> m_page = p_page result, m_pageSize = p_pageSize result,
                           m_totalPages = ceil_quotient (p_total result) (p_pageSize result),
                           m_totalItems = p_total result \<rparr> \<rparr>)"




subsection \<open>NotificationService\<close>

text \<open>\<^verbatim>\<open>markAsRead\<close> returns \<^verbatim>\<open>updated[0]\<close>, which is \<^verbatim>\<open>undefined\<close> when no row was updated.\<close>

definition markAsRead :: "db \<Rightarrow> uuid \<Rightarrow> (error + notification option) \<times> db" where
  "markAsRead s i =
     (case notificationRepo_findById s i of
        None \<Rightarrow> (Inl (NotFound ''Notification not found''), s)
      | Some n \<Rightarrow>
          if isRead n = 1 then (Inr (Some (formatForResponse n)), s)
          else
            (let (updated, s1) = notificationRepo_markAsRead s i in
             (Inr (case updated of [] \<Rightarrow> None | u # _ \<Rightarrow> Some (formatForResponse u)), s1)))"

definition markAllReadForEvent :: "db \<Rightarrow> uuid \<Rightarrow> notification list \<times> db" where
  "markAllReadForEvent s e =
     (let (updated, s1) = notificationRepo_markAllAsReadForEvent s e in
      (map formatForResponse updated, s1))"

subsection \<open>OpenAPIServiceHandlers.deleteEvent\<close>

text \<open>
  \<open>permanent\<close> is \<^verbatim>\<open>request.query.permanent\<close>, absent or a string. The result is the reply
  code the handler sets, or the error it lets through.
\<close>

definition deleteEvent ::
  "db \<Rightarrow> uuid \<Rightarrow> string option \<Rightarrow> timestamp \<Rightarrow> uuid \<Rightarrow> (error + nat) \<times> db" where
  "deleteEvent s i permanent now gen_nid =
     (if permanent = Some ''true''
      then (case event_remove s i of
              (Inl err, s1) \<Rightarrow> (Inl err, s1)
            | (Inr _, s1) \<Rightarrow> (Inr 204, s1))
      else (case archive s i now gen_nid of
              (Inl err, s1) \<Rightarrow> (Inl err, s1)
            | (Inr _, s1) \<Rightarrow> (Inr 204, s1)))"

text \<open>
  The filter in terms of the pattern the repository builds: the name or some tag matches
  \<^verbatim>\<open>%searchText%\<close> under ILIKE, and the status is equal to the one asked for.
\<close>

definition pattern_matches :: "string option \<Rightarrow> event_status option \<Rightarrow> event \<Rightarrow> bool" where
  "pattern_matches searchText st e =
     ((case searchText of
         None \<Rightarrow> True
       | Some t \<Rightarrow> ilike (name e) (''%'' @ t @ ''%'') \<or>
                  (case tags e of
                     None \<Rightarrow> False
                   | Some ts \<Rightarrow> list_ex (\<lambda>tag. ilike tag (''%'' @ t @ ''%'')) ts)) \<and>
      (case st of None \<Rightarrow> True | Some v \<Rightarrow> status e = v))"

subsection \<open>Example data\<close>

text \<open>A small database used to run the operations on concrete input.\<close>

definition launch :: event where
  "launch = \<lparr> eid = ''e1'', name = ''Launch'', description = Some ''Product launch'',
               status = Draft, startDate = 10, endDate = Some 50, location = Some ''Berlin'',
               tags = Some [''tech'', ''Q_1''], notificationCount = 0,
               createdAt = 1, updatedAt = 1 \<rparr>"

definition kickoff :: event where
  "kickoff = \<lparr> eid = ''e2'', name = ''Sales Kickoff'', description = None,
                status = Published, startDate = 20, endDate = None, location = None,
                tags = None, notificationCount = 0, createdAt = 2, updatedAt = 2 \<rparr>"

definition retro :: event where
  "retro = \<lparr> eid = ''e3'', name = ''Retro'', description = None,
              status = Archived, startDate = 5, endDate = Some 6, location = None,
              tags = Some [], notificationCount = 0, createdAt = 3, updatedAt = 3 \<rparr>"

definition note_read :: notification where
  "note_read = \<lparr> nid = ''n1'', eventId = ''e1'', title = ''Event Created'',
                  message = None, isRead = 1, n_createdAt = 1 \<rparr>"

definition note_unread :: notification where
  "note_unread = \<lparr> nid = ''n2'', eventId = ''e1'', title = ''Event Updated'',
                    message = None, isRead = 0, n_createdAt = 2 \<rparr>"

definition note_other :: notification where
  "note_other = \<lparr> nid = ''n3'', eventId = ''e2'', title = ''Event Published'',
                   message = None, isRead = 0, n_createdAt = 3 \<rparr>"

definition sample_db :: db where
  "sample_db = \<lparr> events = [launch, kickoff, retro],
                  notifications = [note_read, note_unread, note_other] \<rparr>"

text \<open>
  A published event with every column filled in and one notification, and an event whose
  name has 249 characters.
\<close>

definition summit :: event where
  "summit = \<lparr> eid = ''e5'', name = ''Summit'', description = Some ''Yearly summit'',
               status = Published, startDate = 30, endDate = Some 40,
               location = Some ''Lisbon'', tags = Some [''yearly'', ''all hands''],
               notificationCount = 3, createdAt = 4, updatedAt = 4 \<rparr>"

definition long_named :: event where
  "long_named = \<lparr> eid = ''e6'', name = replicate 249 (CHR ''x''), description = None,
                   status = Draft, startDate = 30, endDate = None, location = None,
                   tags = None, notificationCount = 0, createdAt = 5, updatedAt = 5 \<rparr>"

definition note_summit :: notification where
  "note_summit = \<lparr> nid = ''n5'', eventId = ''e5'', title = ''Event Published'',
                    message = None, isRead = 0, n_createdAt = 4 \<rparr>"

definition summit_db :: db where
  "summit_db = \<lparr> events = [summit, long_named], notifications = [note_summit] \<rparr>"




section \<open>Properties\<close>


subsection \<open>The repositories\<close>

lemma find_filter_Cons: "find P xs = Some x \<Longrightarrow> \<exists>r. filter P xs = x # r"
  by (induction xs) (auto split: if_splits)

lemma find_None_filter: "find P xs = None \<Longrightarrow> filter P xs = []"
  by (induction xs) (auto split: if_splits)

lemma eid_apply_changes: "eid (apply_changes c e) = eid e"
  by (simp add: apply_changes_def)

lemma apply_status_change:
  "apply_changes (no_changes\<lparr>c_status := Some st, c_updatedAt := Some t\<rparr>) e =
     e\<lparr>status := st, updatedAt := t\<rparr>"
  by (simp add: apply_changes_def no_changes_def)

lemma varchar255_fits: "length v \<le> 255 \<Longrightarrow> varchar255 v = Inr v"
  by (simp add: varchar255_def)

lemma varchar255_length: "varchar255 v = Inr w \<Longrightarrow> length w \<le> 255"
  by (auto simp: varchar255_def split: if_splits)

lemma varchar255_null_fits:
  "(case v of None \<Rightarrow> True | Some t \<Rightarrow> length t \<le> 255) \<Longrightarrow> varchar255_null v = Inr v"
  by (cases v) (simp_all add: varchar255_null_def varchar255_fits)

lemma fit_changes_same:
  assumes "case c_name c of None \<Rightarrow> True | Some v \<Rightarrow> length v \<le> 255"
    and "case c_location c of Some (Some v) \<Rightarrow> length v \<le> 255 | _ \<Rightarrow> True"
  shows "fit_changes c = Inr c"
proof -
  have "varchar255_null (c_name c) = Inr (c_name c)"
    using assms(1) by (rule varchar255_null_fits)
  moreover have "(case c_location c of
                    None \<Rightarrow> Inr None
                  | Some v \<Rightarrow> (case varchar255_null v of Inl err \<Rightarrow> Inl err | Inr l \<Rightarrow> Inr (Some l))) =
                 Inr (c_location c)"
    using assms(2) by (auto simp: varchar255_null_fits split: option.splits)
  ultimately show ?thesis by (simp add: fit_changes_def)
qed

lemma fit_changes_fields:
  assumes "fit_changes c = Inr c'"
  shows "c_description c' = c_description c \<and> c_status c' = c_status c \<and>
         c_startDate c' = c_startDate c \<and> c_endDate c' = c_endDate c \<and>
         c_tags c' = c_tags c \<and> c_notificationCount c' = c_notificationCount c \<and>
         c_createdAt c' = c_createdAt c \<and> c_updatedAt c' = c_updatedAt c"
  using assms by (auto simp: fit_changes_def split: sum.splits)

lemma fit_status_change:
  "fit_changes (no_changes\<lparr>c_status := Some st, c_updatedAt := Some t\<rparr>) =
     Inr (no_changes\<lparr>c_status := Some st, c_updatedAt := Some t\<rparr>)"
  by (rule fit_changes_same) (simp_all add: no_changes_def)

lemma eventRepo_update_found:
  assumes "eventRepo_findById s i = Some ev" and "fit_changes c = Inr c'"
  shows "eventRepo_update s i c =
           Inr (Some (apply_changes c' ev),
                s\<lparr>events := map (\<lambda>e. if eid e = i then apply_changes c' e else e) (events s)\<rparr>)"
proof -
  from assms(1) obtain r where "filter (\<lambda>e. eid e = i) (events s) = ev # r"
    unfolding eventRepo_findById_def using find_filter_Cons by fastforce
  with assms(2) show ?thesis by (simp add: eventRepo_update_def)
qed

lemma eventRepo_update_missing:
  assumes "eventRepo_findById s i = None" and "fit_changes c = Inr c'"
  shows "eventRepo_update s i c = Inr (None, s)"
proof -
  from assms(1) have f: "filter (\<lambda>e. eid e = i) (events s) = []"
    unfolding eventRepo_findById_def by (rule find_None_filter)
  then have "\<forall>e \<in> set (events s). eid e \<noteq> i"
    by (simp add: filter_empty_conv)
  then have "map (\<lambda>e. if eid e = i then apply_changes c' e else e) (events s) = events s"
    by (simp add: map_idI)
  with f assms(2) show ?thesis by (simp add: eventRepo_update_def)
qed

lemma eventRepo_update_too_long:
  assumes "fit_changes c = Inl err"
  shows "eventRepo_update s i c = Inl err"
  using assms by (simp add: eventRepo_update_def)

lemma findById_eid: "eventRepo_findById s i = Some ev \<Longrightarrow> eid ev = i \<and> ev \<in> set (events s)"
  unfolding eventRepo_findById_def by (auto simp: find_Some_iff)

lemma findById_key: "eventRepo_findById s i = Some ev \<Longrightarrow> i \<in> set (map eid (events s))"
  using findById_eid by fastforce

lemma updated_keys:
  "map eid (events (s\<lparr>events := map (\<lambda>e. if eid e = i then apply_changes c e else e) (events s)\<rparr>)) =
     map eid (events s)"
  by (simp add: eid_apply_changes)

lemma notificationRepo_create_ok:
  assumes "g \<notin> set (map nid (notifications s))" and "nn_id d = None"
    and "nn_eventId d \<in> set (map eid (events s))" and "length (nn_title d) \<le> 255"
  shows "notificationRepo_create s g t d =
           Inr (new_notification_row g t d,
                s\<lparr>notifications := notifications s @ [new_notification_row g t d]\<rparr>)"
  using assms
  by (simp add: notificationRepo_create_def new_notification_row_def varchar255_fits Let_def)

lemma lifecycle_row:
  "new_notification_row g t (lifecycle_notification i ttl m) =
     \<lparr> nid = g, eventId = i, title = ttl, message = Some m, isRead = 0, n_createdAt = t \<rparr>"
  by (simp add: new_notification_row_def lifecycle_notification_def)

lemma lifecycle_recorded:
  assumes found: "eventRepo_findById s i = Some ev"
    and fresh: "g \<notin> set (map nid (notifications s))"
    and short: "length ttl \<le> 255"
  shows "notificationRepo_create
           (s\<lparr>events := map (\<lambda>e. if eid e = i then apply_changes c e else e) (events s)\<rparr>)
           g t (lifecycle_notification i ttl m) =
         Inr (\<lparr> nid = g, eventId = i, title = ttl, message = Some m, isRead = 0, n_createdAt = t \<rparr>,
              s\<lparr>events := map (\<lambda>e. if eid e = i then apply_changes c e else e) (events s),
                notifications := notifications s @
                  [\<lparr> nid = g, eventId = i, title = ttl, message = Some m, isRead = 0,
                     n_createdAt = t \<rparr>]\<rparr>)"
proof -
  let ?s1 = "s\<lparr>events := map (\<lambda>e. if eid e = i then apply_changes c e else e) (events s)\<rparr>"
  let ?d = "lifecycle_notification i ttl m"
  have "i \<in> set (map eid (events ?s1))"
    using findById_key [OF found] by (simp only: updated_keys)
  then have "notificationRepo_create ?s1 g t ?d =
          Inr (new_notification_row g t ?d,
               ?s1\<lparr>notifications := notifications ?s1 @ [new_notification_row g t ?d]\<rparr>)"
    by (intro notificationRepo_create_ok)
      (use fresh short in \<open>simp_all add: lifecycle_notification_def\<close>)
  then show ?thesis by (simp add: lifecycle_row)
qed

lemma sample_lookup:
  "eventRepo_findById sample_db ''e1'' = Some launch"
  "eventRepo_findById sample_db ''e2'' = Some kickoff"
  "eventRepo_findById sample_db ''e3'' = Some retro"
  by (simp_all add: eventRepo_findById_def sample_db_def launch_def kickoff_def retro_def)

lemma sample_fresh: "''n9'' \<notin> set (map nid (notifications sample_db))"
  by (simp add: sample_db_def note_read_def note_unread_def note_other_def)


subsection \<open>Publishing\<close>

text \<open>
  C3. For an event that exists, \<^verbatim>\<open>publish(id)\<close> succeeds exactly when the status is
  \<^verbatim>\<open>draft\<close>. From any other status it fails with the InvalidTransition error and the
  database is as before. On success the row has status \<^verbatim>\<open>published\<close> and \<^verbatim>\<open>updatedAt\<close> set
  to the current time, every other row is as before, and one notification titled
  "Event Published" is added for the event. The key generated for the notification is
  assumed new, as the database guarantees.
\<close>

theorem publish_only_from_draft:
  assumes found: "eventRepo_findById s i = Some ev"
    and fresh: "gen_nid \<notin> set (map nid (notifications s))"
  shows "((\<exists>r s'. publish s i now gen_nid = (Inr r, s')) \<longleftrightarrow> status ev = Draft) \<and>
         (status ev \<noteq> Draft \<longrightarrow>
            publish s i now gen_nid =
              (Inl (InvalidTransition ''Only draft events can be published''), s)) \<and>
         (status ev = Draft \<longrightarrow>
            publish s i now gen_nid =
              (Inr (Some (ev\<lparr>status := Published, updatedAt := now\<rparr>)),
               s\<lparr>events := map (\<lambda>e. if eid e = i then e\<lparr>status := Published, updatedAt := now\<rparr> else e)
                               (events s),
                 notifications := notifications s @
                   [\<lparr> nid = gen_nid, eventId = i, title = ''Event Published'',
                      message = Some (''Event '' @ quoted (name ev) @ '' has been published''),
                      isRead = 0, n_createdAt = now \<rparr>]\<rparr>))"
proof -
  have short: "length ''Event Published'' \<le> 255"
    by simp
  let ?c = "no_changes\<lparr>c_status := Some Published, c_updatedAt := Some now\<rparr>"
  have rejected: "publish s i now gen_nid =
      (Inl (InvalidTransition ''Only draft events can be published''), s)" if "status ev \<noteq> Draft"
    using found that by (simp add: publish_def)
  have accepted: "publish s i now gen_nid =
      (Inr (Some (ev\<lparr>status := Published, updatedAt := now\<rparr>)),
       s\<lparr>events := map (\<lambda>e. if eid e = i then e\<lparr>status := Published, updatedAt := now\<rparr> else e)
                       (events s),
         notifications := notifications s @
           [\<lparr> nid = gen_nid, eventId = i, title = ''Event Published'',
              message = Some (''Event '' @ quoted (name ev) @ '' has been published''),
              isRead = 0, n_createdAt = now \<rparr>]\<rparr>)" if "status ev = Draft"
    using found that eventRepo_update_found [OF found fit_status_change]
      lifecycle_recorded [OF found fresh short, where c = ?c]
    by (simp add: publish_def formatForResponse_def apply_status_change)
  show ?thesis
  proof (cases "status ev = Draft")
    case True
    with accepted [OF True] show ?thesis by simp
  next
    case False
    with rejected [OF False] show ?thesis by simp
  qed
qed

theorem publish_only_from_draft_witness:
  "eventRepo_findById sample_db ''e1'' = Some launch \<and>
   ''n9'' \<notin> set (map nid (notifications sample_db)) \<and>
   status launch = Draft \<and>
   (\<exists>r s'. publish sample_db ''e1'' 7 ''n9'' = (Inr r, s')) \<and>
   eventRepo_findById sample_db ''e2'' = Some kickoff \<and>
   publish sample_db ''e2'' 7 ''n9'' =
     (Inl (InvalidTransition ''Only draft events can be published''), sample_db)"
proof -
  have d: "status launch = Draft" and p: "status kickoff \<noteq> Draft"
    by (simp_all add: launch_def kickoff_def)
  from publish_only_from_draft [OF sample_lookup(1) sample_fresh, of 7] d
  have "\<exists>r s'. publish sample_db ''e1'' 7 ''n9'' = (Inr r, s')"
    by simp
  moreover from publish_only_from_draft [OF sample_lookup(2) sample_fresh, of 7] p
  have "publish sample_db ''e2'' 7 ''n9'' =
          (Inl (InvalidTransition ''Only draft events can be published''), sample_db)"
    by simp
  ultimately show ?thesis
    using sample_lookup(1,2) sample_fresh d by simp
qed


subsection \<open>Archiving\<close>

text \<open>
  C4. For an event that exists, \<^verbatim>\<open>archive(id)\<close> fails with the InvalidTransition error
  exactly when the status is already \<^verbatim>\<open>archived\<close>, and then the database is as before.
  From \<^verbatim>\<open>draft\<close> and from \<^verbatim>\<open>published\<close> it succeeds: the row has status \<^verbatim>\<open>archived\<close> and
  \<^verbatim>\<open>updatedAt\<close> set to the current time, every other row is as before, and one
  notification titled "Event Archived" is added for the event. The key generated for the
  notification is assumed new.
\<close>

theorem archive_unless_archived:
  assumes found: "eventRepo_findById s i = Some ev"
    and fresh: "gen_nid \<notin> set (map nid (notifications s))"
  shows "((\<exists>m s'. archive s i now gen_nid = (Inl (InvalidTransition m), s')) \<longleftrightarrow> status ev = Archived) \<and>
         (status ev = Archived \<longrightarrow>
            archive s i now gen_nid = (Inl (InvalidTransition ''Event is already archived''), s)) \<and>
         (status ev = Draft \<or> status ev = Published \<longrightarrow>
            archive s i now gen_nid =
              (Inr (Some (ev\<lparr>status := Archived, updatedAt := now\<rparr>)),
               s\<lparr>events := map (\<lambda>e. if eid e = i then e\<lparr>status := Archived, updatedAt := now\<rparr> else e)
                               (events s),
                 notifications := notifications s @
                   [\<lparr> nid = gen_nid, eventId = i, title = ''Event Archived'',
                      message = Some (''Event '' @ quoted (name ev) @ '' has been archived''),
                      isRead = 0, n_createdAt = now \<rparr>]\<rparr>))"
proof -
  have short: "length ''Event Archived'' \<le> 255"
    by simp
  let ?c = "no_changes\<lparr>c_status := Some Archived, c_updatedAt := Some now\<rparr>"
  have rejected: "archive s i now gen_nid =
      (Inl (InvalidTransition ''Event is already archived''), s)" if "status ev = Archived"
    using found that by (simp add: archive_def)
  have accepted: "archive s i now gen_nid =
      (Inr (Some (ev\<lparr>status := Archived, updatedAt := now\<rparr>)),
       s\<lparr>events := map (\<lambda>e. if eid e = i then e\<lparr>status := Archived, updatedAt := now\<rparr> else e)
                       (events s),
         notifications := notifications s @
           [\<lparr> nid = gen_nid, eventId = i, title = ''Event Archived'',
              message = Some (''Event '' @ quoted (name ev) @ '' has been archived''),
              isRead = 0, n_createdAt = now \<rparr>]\<rparr>)" if "status ev \<noteq> Archived"
    using found that eventRepo_update_found [OF found fit_status_change]
      lifecycle_recorded [OF found fresh short, where c = ?c]
    by (simp add: archive_def formatForResponse_def apply_status_change)
  show ?thesis
  proof (cases "status ev = Archived")
    case True
    with rejected [OF True] show ?thesis by simp
  next
    case False
    with accepted [OF False] show ?thesis by simp
  qed
qed

theorem archive_unless_archived_witness:
  "eventRepo_findById sample_db ''e2'' = Some kickoff \<and>
   ''n9'' \<notin> set (map nid (notifications sample_db)) \<and>
   status kickoff = Published \<and>
   archive sample_db ''e2'' 7 ''n9'' =
     (Inr (Some (kickoff\<lparr>status := Archived, updatedAt := 7\<rparr>)),
      sample_db\<lparr>events := [launch, kickoff\<lparr>status := Archived, updatedAt := 7\<rparr>, retro],
        notifications := [note_read, note_unread, note_other,
          \<lparr> nid = ''n9'', eventId = ''e2'', title = ''Event Archived'',
             message = Some (''Event '' @ quoted ''Sales Kickoff'' @ '' has been archived''),
             isRead = 0, n_createdAt = 7 \<rparr>]\<rparr>) \<and>
   eventRepo_findById sample_db ''e3'' = Some retro \<and>
   status retro = Archived \<and>
   archive sample_db ''e3'' 7 ''n9'' =
     (Inl (InvalidTransition ''Event is already archived''), sample_db)"
proof -
  have p: "status kickoff = Published" and a: "status retro = Archived"
    by (simp_all add: kickoff_def retro_def)
  have ids: "eid launch \<noteq> ''e2''" "eid kickoff = ''e2''" "eid retro \<noteq> ''e2''" "name kickoff = ''Sales Kickoff''"
    by (simp_all add: launch_def kickoff_def retro_def)
  from archive_unless_archived [OF sample_lookup(2) sample_fresh, of 7] p
  have "archive sample_db ''e2'' 7 ''n9'' =
     (Inr (Some (kickoff\<lparr>status := Archived, updatedAt := 7\<rparr>)),
      sample_db\<lparr>events := [launch, kickoff\<lparr>status := Archived, updatedAt := 7\<rparr>, retro],
        notifications := [note_read, note_unread, note_other,
          \<lparr> nid = ''n9'', eventId = ''e2'', title = ''Event Archived'',
             message = Some (''Event '' @ quoted ''Sales Kickoff'' @ '' has been archived''),
             isRead = 0, n_createdAt = 7 \<rparr>]\<rparr>)"
    using ids by (simp add: sample_db_def)
  moreover from archive_unless_archived [OF sample_lookup(3) sample_fresh, of 7] a
  have "archive sample_db ''e3'' 7 ''n9'' =
          (Inl (InvalidTransition ''Event is already archived''), sample_db)"
    by simp
  ultimately show ?thesis
    using sample_lookup(2,3) sample_fresh p a by simp
qed


subsection \<open>Updating\<close>

lemma validateEventDates_cases:
  "validateEventDates sd ed =
     (if (\<exists>e. ed = Some e \<and> e \<le> sd)
      then Inl (ValidationFailed ''End date must be after start date'')
      else Inr ())"
  by (cases ed) (simp_all add: validateEventDates_def)

lemma validateEventDates_failure:
  "validateEventDates sd ed \<noteq> Inr () \<Longrightarrow>
   validateEventDates sd ed = Inl (ValidationFailed ''End date must be after start date'')"
  by (cases ed) (simp_all add: validateEventDates_def split: if_splits)

lemma notificationRepo_create_clash:
  assumes "g \<in> set (map nid (notifications s))" and "nn_id d = None"
    and "length (nn_title d) \<le> 255"
  shows "notificationRepo_create s g t d =
           Inl (DbError ''duplicate key value violates unique constraint notifications_pkey'')"
  using assms
  by (simp add: notificationRepo_create_def new_notification_row_def varchar255_fits Let_def)

lemma event_update_missing:
  assumes missing: "eventRepo_findById s i = None"
    and fit: "fit_changes (ch\<lparr>c_updatedAt := Some now\<rparr>) = Inr c"
  shows "event_update s i ch now g = (Inl (NotFound ''Event not found''), s)"
  using missing eventRepo_update_missing [OF missing fit]
  by (simp add: event_update_def)

lemma event_update_rejected:
  assumes found: "eventRepo_findById s i = Some ev"
    and given: "c_startDate ch \<noteq> None \<or> truthy_date (c_endDate ch)"
    and bad: "validateEventDates
                (case c_startDate ch of Some d \<Rightarrow> d | None \<Rightarrow> startDate ev)
                (case c_endDate ch of Some (Some d) \<Rightarrow> Some d | _ \<Rightarrow> endDate ev) \<noteq> Inr ()"
  shows "event_update s i ch now g =
           (Inl (ValidationFailed ''End date must be after start date''), s)"
proof -
  from bad have "validateEventDates
                (case c_startDate ch of Some d \<Rightarrow> d | None \<Rightarrow> startDate ev)
                (case c_endDate ch of Some (Some d) \<Rightarrow> Some d | _ \<Rightarrow> endDate ev) =
                Inl (ValidationFailed ''End date must be after start date'')"
    by (rule validateEventDates_failure)
  with found given show ?thesis
    by (simp add: event_update_def)
qed

lemma event_update_accepted:
  assumes found: "eventRepo_findById s i = Some ev"
    and ok: "c_startDate ch \<noteq> None \<or> truthy_date (c_endDate ch) \<Longrightarrow>
             validateEventDates
                (case c_startDate ch of Some d \<Rightarrow> d | None \<Rightarrow> startDate ev)
                (case c_endDate ch of Some (Some d) \<Rightarrow> Some d | _ \<Rightarrow> endDate ev) = Inr ()"
    and fit: "fit_changes (ch\<lparr>c_updatedAt := Some now\<rparr>) = Inr c"
  shows "event_update s i ch now g =
     (let s1 = s\<lparr>events := map (\<lambda>e. if eid e = i then apply_changes c e else e) (events s)\<rparr> in
      if c_status ch \<noteq> None \<or> truthy_string (c_name ch) \<or> c_startDate ch \<noteq> None
      then (if g \<in> set (map nid (notifications s))
            then (Inl (DbError ''duplicate key value violates unique constraint notifications_pkey''), s1)
            else (Inr (apply_changes c ev),
                  s1\<lparr>notifications := notifications s @
                       [\<lparr> nid = g, eventId = i, title = ''Event Updated'',
                          message = Some ''Event has been updated'', isRead = 0,
                          n_createdAt = now \<rparr>]\<rparr>))
      else (Inr (apply_changes c ev), s1))"
proof -
  let ?s1 = "s\<lparr>events := map (\<lambda>e. if eid e = i then apply_changes c e else e) (events s)\<rparr>"
  let ?d = "lifecycle_notification i ''Event Updated'' ''Event has been updated''"
  have short: "length ''Event Updated'' \<le> 255"
    by simp
  have pre: "(if c_startDate ch \<noteq> None \<or> truthy_date (c_endDate ch) then
              (case eventRepo_findById s i of
                 None \<Rightarrow> Inl (NotFound ''Event not found'')
               | Some existing \<Rightarrow>
                   validateEventDates
                     (case c_startDate ch of Some d \<Rightarrow> d | None \<Rightarrow> startDate existing)
                     (case c_endDate ch of Some (Some d) \<Rightarrow> Some d | _ \<Rightarrow> endDate existing))
            else Inr ()) = Inr ()"
    using found ok by auto
  have upd: "eventRepo_update s i (ch\<lparr>c_updatedAt := Some now\<rparr>) =
      Inr (Some (apply_changes c ev), ?s1)"
    using found fit by (rule eventRepo_update_found)
  have clash: "notificationRepo_create ?s1 g now ?d =
      Inl (DbError ''duplicate key value violates unique constraint notifications_pkey'')"
    if "g \<in> set (map nid (notifications s))"
    by (rule notificationRepo_create_clash) (use that in \<open>simp_all add: lifecycle_notification_def\<close>)
  have rec: "notificationRepo_create ?s1 g now ?d =
      Inr (\<lparr> nid = g, eventId = i, title = ''Event Updated'',
              message = Some ''Event has been updated'', isRead = 0, n_createdAt = now \<rparr>,
           ?s1\<lparr>notifications := notifications s @
             [\<lparr> nid = g, eventId = i, title = ''Event Updated'',
                message = Some ''Event has been updated'', isRead = 0, n_createdAt = now \<rparr>]\<rparr>)"
    if "g \<notin> set (map nid (notifications s))"
    using lifecycle_recorded [OF found that short, where c = c] by simp
  show ?thesis
    unfolding event_update_def pre
    using upd clash rec by (simp add: formatForResponse_def Let_def)
qed

lemma event_update_too_long:
  assumes found: "eventRepo_findById s i = Some ev"
    and ok: "c_startDate ch \<noteq> None \<or> truthy_date (c_endDate ch) \<Longrightarrow>
             validateEventDates
                (case c_startDate ch of Some d \<Rightarrow> d | None \<Rightarrow> startDate ev)
                (case c_endDate ch of Some (Some d) \<Rightarrow> Some d | _ \<Rightarrow> endDate ev) = Inr ()"
    and unfit: "fit_changes (ch\<lparr>c_updatedAt := Some now\<rparr>) = Inl err"
  shows "event_update s i ch now g = (Inl err, s)"
proof -
  have pre: "(if c_startDate ch \<noteq> None \<or> truthy_date (c_endDate ch) then
              (case eventRepo_findById s i of
                 None \<Rightarrow> Inl (NotFound ''Event not found'')
               | Some existing \<Rightarrow>
                   validateEventDates
                     (case c_startDate ch of Some d \<Rightarrow> d | None \<Rightarrow> startDate existing)
                     (case c_endDate ch of Some (Some d) \<Rightarrow> Some d | _ \<Rightarrow> endDate existing))
            else Inr ()) = Inr ()"
    using found ok by auto
  show ?thesis
    unfolding event_update_def pre
    using eventRepo_update_too_long [OF unfit] by (simp add: Let_def)
qed

text \<open>
  C9. The generic update has no rule on status transitions: for an event that exists and
  every target status, \<^verbatim>\<open>update(id, {status})\<close> succeeds whatever the status was before, so
  also from \<^verbatim>\<open>archived\<close> or \<^verbatim>\<open>published\<close> back to \<^verbatim>\<open>draft\<close>. It stores the status, sets
  \<^verbatim>\<open>updatedAt\<close> and records an "Event Updated" notification. On the same event \<^verbatim>\<open>publish\<close>
  refuses any status but \<^verbatim>\<open>draft\<close> and \<^verbatim>\<open>archive\<close> refuses \<^verbatim>\<open>archived\<close>. The key generated
  for the notification is assumed new.
\<close>

theorem update_status_unguarded:
  assumes found: "eventRepo_findById s i = Some ev"
    and fresh: "gen_nid \<notin> set (map nid (notifications s))"
  shows "event_update s i (no_changes\<lparr>c_status := Some st\<rparr>) now gen_nid =
           (Inr (ev\<lparr>status := st, updatedAt := now\<rparr>),
            s\<lparr>events := map (\<lambda>e. if eid e = i then e\<lparr>status := st, updatedAt := now\<rparr> else e)
                            (events s),
              notifications := notifications s @
                [\<lparr> nid = gen_nid, eventId = i, title = ''Event Updated'',
                   message = Some ''Event has been updated'', isRead = 0,
                   n_createdAt = now \<rparr>]\<rparr>) \<and>
         (status ev \<noteq> Draft \<longrightarrow>
            publish s i now gen_nid =
              (Inl (InvalidTransition ''Only draft events can be published''), s)) \<and>
         (status ev = Archived \<longrightarrow>
            archive s i now gen_nid = (Inl (InvalidTransition ''Event is already archived''), s))"
proof -
  let ?ch = "no_changes\<lparr>c_status := Some st\<rparr>"
  have untouched: "c_startDate ?ch = None" "\<not> truthy_date (c_endDate ?ch)" "c_status ?ch \<noteq> None"
    by (simp_all add: no_changes_def truthy_date_def)
  have fit: "fit_changes (?ch\<lparr>c_updatedAt := Some now\<rparr>) =
      Inr (no_changes\<lparr>c_status := Some st, c_updatedAt := Some now\<rparr>)"
    by (rule fit_status_change)
  have "event_update s i ?ch now gen_nid =
           (Inr (ev\<lparr>status := st, updatedAt := now\<rparr>),
            s\<lparr>events := map (\<lambda>e. if eid e = i then e\<lparr>status := st, updatedAt := now\<rparr> else e)
                            (events s),
              notifications := notifications s @
                [\<lparr> nid = gen_nid, eventId = i, title = ''Event Updated'',
                   message = Some ''Event has been updated'', isRead = 0,
                   n_createdAt = now \<rparr>]\<rparr>)"
    using event_update_accepted [OF found _ fit, where g = gen_nid] untouched fresh
    by (simp add: Let_def apply_status_change)
  moreover have "publish s i now gen_nid =
      (Inl (InvalidTransition ''Only draft events can be published''), s)" if "status ev \<noteq> Draft"
    using found that by (simp add: publish_def)
  moreover have "archive s i now gen_nid =
      (Inl (InvalidTransition ''Event is already archived''), s)" if "status ev = Archived"
    using found that by (simp add: archive_def)
  ultimately show ?thesis by simp
qed

theorem update_status_unguarded_witness:
  "eventRepo_findById sample_db ''e3'' = Some retro \<and>
   ''n9'' \<notin> set (map nid (notifications sample_db)) \<and>
   status retro = Archived \<and>
   event_update sample_db ''e3'' (no_changes\<lparr>c_status := Some Draft\<rparr>) 7 ''n9'' =
     (Inr (retro\<lparr>status := Draft, updatedAt := 7\<rparr>),
      sample_db\<lparr>events := [launch, kickoff, retro\<lparr>status := Draft, updatedAt := 7\<rparr>],
        notifications := [note_read, note_unread, note_other,
          \<lparr> nid = ''n9'', eventId = ''e3'', title = ''Event Updated'',
             message = Some ''Event has been updated'', isRead = 0, n_createdAt = 7 \<rparr>]\<rparr>) \<and>
   archive sample_db ''e3'' 7 ''n9'' =
     (Inl (InvalidTransition ''Event is already archived''), sample_db) \<and>
   publish sample_db ''e3'' 7 ''n9'' =
     (Inl (InvalidTransition ''Only draft events can be published''), sample_db)"
proof -
  have a: "status retro = Archived"
    by (simp add: retro_def)
  have ids: "eid launch \<noteq> ''e3''" "eid kickoff \<noteq> ''e3''" "eid retro = ''e3''"
    by (simp_all add: launch_def kickoff_def retro_def)
  from update_status_unguarded [OF sample_lookup(3) sample_fresh, of Draft 7] a ids
  show ?thesis
    using sample_lookup(3) sample_fresh by (simp add: sample_db_def)
qed

text \<open>
  C5, as the code has it. For an update of an existing event that succeeds: when the
  change set carries a status, a name that is not the empty string, or a start date,
  exactly one notification is added, titled "Event Updated"; when it carries none of
  status, name and start date (only a location, say), no notification is added.
\<close>

theorem update_notifies_on_significant_change:
  assumes found: "eventRepo_findById s i = Some ev"
    and succ: "event_update s i ch now gen_nid = (Inr u, s')"
  shows "(c_status ch \<noteq> None \<or> (\<exists>n. c_name ch = Some n \<and> n \<noteq> []) \<or> c_startDate ch \<noteq> None \<longrightarrow>
            notifications s' = notifications s @
              [\<lparr> nid = gen_nid, eventId = i, title = ''Event Updated'',
                 message = Some ''Event has been updated'', isRead = 0, n_createdAt = now \<rparr>]) \<and>
         (c_status ch = None \<and> c_name ch = None \<and> c_startDate ch = None \<longrightarrow>
            notifications s' = notifications s)"
proof -
  let ?sd = "case c_startDate ch of Some d \<Rightarrow> d | None \<Rightarrow> startDate ev"
  let ?ed = "case c_endDate ch of Some (Some d) \<Rightarrow> Some d | _ \<Rightarrow> endDate ev"
  have ok: "validateEventDates ?sd ?ed = Inr ()"
    if given: "c_startDate ch \<noteq> None \<or> truthy_date (c_endDate ch)"
  proof (rule ccontr)
    assume "validateEventDates ?sd ?ed \<noteq> Inr ()"
    from event_update_rejected [OF found given this, of now gen_nid] succ
    show False by simp
  qed
  obtain c where fit: "fit_changes (ch\<lparr>c_updatedAt := Some now\<rparr>) = Inr c"
  proof (cases "fit_changes (ch\<lparr>c_updatedAt := Some now\<rparr>)")
    case (Inl err)
    from event_update_too_long [OF found ok Inl, where g = gen_nid] succ
    show ?thesis by simp
  next
    case (Inr c)
    then show ?thesis by (rule that)
  qed
  note acc = event_update_accepted [OF found ok fit, where g = gen_nid]
  have name_truthy: "truthy_string (c_name ch) \<longleftrightarrow> (\<exists>n. c_name ch = Some n \<and> n \<noteq> [])"
    by (cases "c_name ch") (simp_all add: truthy_string_def)
  have one: "notifications s' = notifications s @
              [\<lparr> nid = gen_nid, eventId = i, title = ''Event Updated'',
                 message = Some ''Event has been updated'', isRead = 0, n_createdAt = now \<rparr>]"
    if "c_status ch \<noteq> None \<or> (\<exists>n. c_name ch = Some n \<and> n \<noteq> []) \<or> c_startDate ch \<noteq> None"
  proof -
    from that have sig: "c_status ch \<noteq> None \<or> truthy_string (c_name ch) \<or> c_startDate ch \<noteq> None"
      by (simp only: name_truthy)
    show ?thesis
    proof (cases "gen_nid \<in> set (map nid (notifications s))")
      case True
      with acc sig succ show ?thesis by (simp add: Let_def)
    next
      case False
      with acc sig succ show ?thesis by (auto simp add: Let_def)
    qed
  qed
  have none: "notifications s' = notifications s"
    if "c_status ch = None \<and> c_name ch = None \<and> c_startDate ch = None"
  proof -
    from that have "\<not> (c_status ch \<noteq> None \<or> truthy_string (c_name ch) \<or> c_startDate ch \<noteq> None)"
      by (simp add: truthy_string_def)
    with acc succ show ?thesis by (auto simp add: Let_def)
  qed
  from one none show ?thesis by blast
qed

lemmas sample_defs =
  sample_db_def launch_def kickoff_def retro_def note_read_def note_unread_def note_other_def

lemmas update_defs =
  event_update_def eventRepo_findById_def eventRepo_update_def notificationRepo_create_def
  new_notification_row_def lifecycle_notification_def apply_changes_def no_changes_def
  validateEventDates_def truthy_date_def truthy_string_def formatForResponse_def Let_def
  fit_changes_def varchar255_null_def varchar255_def

lemma sample_update_status:
  "event_update sample_db ''e1'' (no_changes\<lparr>c_status := Some Archived\<rparr>) 7 ''n9'' =
     (Inr (launch\<lparr>status := Archived, updatedAt := 7\<rparr>),
      sample_db\<lparr>events := [launch\<lparr>status := Archived, updatedAt := 7\<rparr>, kickoff, retro],
        notifications := [note_read, note_unread, note_other,
          \<lparr> nid = ''n9'', eventId = ''e1'', title = ''Event Updated'',
             message = Some ''Event has been updated'', isRead = 0, n_createdAt = 7 \<rparr>]\<rparr>)"
  by (simp add: update_defs sample_defs)

lemma sample_update_location:
  "event_update sample_db ''e1'' (no_changes\<lparr>c_location := Some (Some ''Paris'')\<rparr>) 7 ''n9'' =
     (Inr (launch\<lparr>location := Some ''Paris'', updatedAt := 7\<rparr>),
      sample_db\<lparr>events := [launch\<lparr>location := Some ''Paris'', updatedAt := 7\<rparr>, kickoff, retro]\<rparr>)"
  by (simp add: update_defs sample_defs)

theorem update_notifies_on_significant_change_witness:
  "eventRepo_findById sample_db ''e1'' = Some launch \<and>
   event_update sample_db ''e1'' (no_changes\<lparr>c_status := Some Archived\<rparr>) 7 ''n9'' =
     (Inr (launch\<lparr>status := Archived, updatedAt := 7\<rparr>),
      sample_db\<lparr>events := [launch\<lparr>status := Archived, updatedAt := 7\<rparr>, kickoff, retro],
        notifications := [note_read, note_unread, note_other,
          \<lparr> nid = ''n9'', eventId = ''e1'', title = ''Event Updated'',
             message = Some ''Event has been updated'', isRead = 0, n_createdAt = 7 \<rparr>]\<rparr>) \<and>
   c_status (no_changes\<lparr>c_status := Some Archived\<rparr>) \<noteq> None \<and>
   [note_read, note_unread, note_other,
      \<lparr> nid = ''n9'', eventId = ''e1'', title = ''Event Updated'',
         message = Some ''Event has been updated'', isRead = 0, n_createdAt = 7 \<rparr>] =
     notifications sample_db @
       [\<lparr> nid = ''n9'', eventId = ''e1'', title = ''Event Updated'',
          message = Some ''Event has been updated'', isRead = 0, n_createdAt = 7 \<rparr>] \<and>
   event_update sample_db ''e1'' (no_changes\<lparr>c_location := Some (Some ''Paris'')\<rparr>) 7 ''n9'' =
     (Inr (launch\<lparr>location := Some ''Paris'', updatedAt := 7\<rparr>),
      sample_db\<lparr>events := [launch\<lparr>location := Some ''Paris'', updatedAt := 7\<rparr>, kickoff, retro]\<rparr>) \<and>
   notifications
     (sample_db\<lparr>events := [launch\<lparr>location := Some ''Paris'', updatedAt := 7\<rparr>, kickoff, retro]\<rparr>) =
     notifications sample_db"
proof -
  have st: "c_status (no_changes\<lparr>c_status := Some Archived\<rparr>) \<noteq> None"
    by simp
  have loc: "c_status (no_changes\<lparr>c_location := Some (Some ''Paris'')\<rparr>) = None \<and>
             c_name (no_changes\<lparr>c_location := Some (Some ''Paris'')\<rparr>) = None \<and>
             c_startDate (no_changes\<lparr>c_location := Some (Some ''Paris'')\<rparr>) = None"
    by (simp add: no_changes_def)
  from update_notifies_on_significant_change [OF sample_lookup(1) sample_update_status] st
  have one: "notifications
      (sample_db\<lparr>events := [launch\<lparr>status := Archived, updatedAt := 7\<rparr>, kickoff, retro],
        notifications := [note_read, note_unread, note_other,
          \<lparr> nid = ''n9'', eventId = ''e1'', title = ''Event Updated'',
             message = Some ''Event has been updated'', isRead = 0, n_createdAt = 7 \<rparr>]\<rparr>) =
     notifications sample_db @
       [\<lparr> nid = ''n9'', eventId = ''e1'', title = ''Event Updated'',
          message = Some ''Event has been updated'', isRead = 0, n_createdAt = 7 \<rparr>]"
    by blast
  from update_notifies_on_significant_change [OF sample_lookup(1) sample_update_location] loc
  have zero: "notifications
     (sample_db\<lparr>events := [launch\<lparr>location := Some ''Paris'', updatedAt := 7\<rparr>, kickoff, retro]\<rparr>) =
     notifications sample_db"
    by blast
  from one have one': "[note_read, note_unread, note_other,
      \<lparr> nid = ''n9'', eventId = ''e1'', title = ''Event Updated'',
         message = Some ''Event has been updated'', isRead = 0, n_createdAt = 7 \<rparr>] =
     notifications sample_db @
       [\<lparr> nid = ''n9'', eventId = ''e1'', title = ''Event Updated'',
          message = Some ''Event has been updated'', isRead = 0, n_createdAt = 7 \<rparr>]"
    by simp
  show ?thesis
    using sample_lookup(1) sample_update_status sample_update_location st one' zero
    by (intro conjI)
qed

text \<open>
  C5 as it is worded fails twice. An update that sets the name to the empty string
  touches the name and adds no notification, since \<^verbatim>\<open>changes.name\<close> is then false. An
  update whose start date is not before the stored end date touches the start date, is
  rejected, and adds no notification.
\<close>

theorem update_notification_counterexample:
  "c_name (no_changes\<lparr>c_name := Some ''''\<rparr>) = Some '''' \<and>
   event_update sample_db ''e1'' (no_changes\<lparr>c_name := Some ''''\<rparr>) 7 ''n9'' =
     (Inr (launch\<lparr>name := '''', updatedAt := 7\<rparr>),
      sample_db\<lparr>events := [launch\<lparr>name := '''', updatedAt := 7\<rparr>, kickoff, retro]\<rparr>) \<and>
   notifications (sample_db\<lparr>events := [launch\<lparr>name := '''', updatedAt := 7\<rparr>, kickoff, retro]\<rparr>) =
     notifications sample_db \<and>
   c_startDate (no_changes\<lparr>c_startDate := Some 60\<rparr>) = Some 60 \<and>
   event_update sample_db ''e1'' (no_changes\<lparr>c_startDate := Some 60\<rparr>) 7 ''n9'' =
     (Inl (ValidationFailed ''End date must be after start date''), sample_db)"
  by (simp add: update_defs sample_defs)


subsection \<open>The delete endpoint\<close>

lemma notificationRepo_create_events:
  "notificationRepo_create s g t d = Inr (n, s2) \<Longrightarrow> events s2 = events s"
  by (auto simp: notificationRepo_create_def Let_def split: if_splits sum.splits)

lemma archive_keeps_keys: "map eid (events (snd (archive s i now g))) = map eid (events s)"
proof (cases "eventRepo_findById s i")
  case None
  then show ?thesis by (simp add: archive_def)
next
  case (Some ev)
  let ?c = "no_changes\<lparr>c_status := Some Archived, c_updatedAt := Some now\<rparr>"
  let ?s1 = "s\<lparr>events := map (\<lambda>e. if eid e = i then apply_changes ?c e else e) (events s)\<rparr>"
  let ?d = "lifecycle_notification i ''Event Archived''
              (''Event '' @ quoted (name ev) @ '' has been archived'')"
  show ?thesis
  proof (cases "status ev = Archived")
    case True
    with Some show ?thesis by (simp add: archive_def)
  next
    case False
    have s1: "map eid (events ?s1) = map eid (events s)"
      by (rule updated_keys)
    show ?thesis
    proof (cases "notificationRepo_create ?s1 g now ?d")
      case (Inl err)
      with Some False eventRepo_update_found [OF Some fit_status_change] s1 show ?thesis
        by (simp add: archive_def)
    next
      case (Inr r)
      then obtain n s2 where r: "notificationRepo_create ?s1 g now ?d = Inr (n, s2)"
        by (cases r) simp
      from notificationRepo_create_events [OF r] have "events s2 = events ?s1" .
      with Some False eventRepo_update_found [OF Some fit_status_change] s1 r show ?thesis
        by (simp add: archive_def)
    qed
  qed
qed

lemma eventRepo_delete_gone: "i \<notin> set (map eid (events (snd (eventRepo_delete s i))))"
  by (auto simp: eventRepo_delete_def)

text \<open>
  C10. The delete handler removes the event (and, by the cascade, its notifications)
  only when the query parameter \<^verbatim>\<open>permanent\<close> is exactly the string \<^verbatim>\<open>true\<close>; it then
  replies 204. For any other value, and when the parameter is absent, the request goes to
  \<^verbatim>\<open>archive\<close>: the outcome and the database are those of \<^verbatim>\<open>archive\<close>, and no row of
  \<^verbatim>\<open>events\<close> is removed. So such a delete of an event that is already archived ends in the
  already-archived error, with the database as before, and not in 204.
\<close>

theorem deleteEvent_archives_unless_permanent_true:
  "(permanent = Some ''true'' \<longrightarrow>
      deleteEvent s i permanent now g = (Inr 204, snd (eventRepo_delete s i)) \<and>
      i \<notin> set (map eid (events (snd (deleteEvent s i permanent now g))))) \<and>
   (permanent \<noteq> Some ''true'' \<longrightarrow>
      fst (deleteEvent s i permanent now g) =
        (case fst (archive s i now g) of Inl err \<Rightarrow> Inl err | Inr _ \<Rightarrow> Inr 204) \<and>
      snd (deleteEvent s i permanent now g) = snd (archive s i now g) \<and>
      map eid (events (snd (deleteEvent s i permanent now g))) = map eid (events s)) \<and>
   (permanent \<noteq> Some ''true'' \<and> eventRepo_findById s i = Some ev \<and> status ev = Archived \<longrightarrow>
      deleteEvent s i permanent now g =
        (Inl (InvalidTransition ''Event is already archived''), s))"
proof -
  have hard: "deleteEvent s i permanent now g = (Inr 204, snd (eventRepo_delete s i))"
    if "permanent = Some ''true''"
    using that by (simp add: deleteEvent_def event_remove_def split_beta)
  have soft: "deleteEvent s i permanent now g =
      (case fst (archive s i now g) of Inl err \<Rightarrow> Inl err | Inr _ \<Rightarrow> Inr 204,
       snd (archive s i now g))"
    if "permanent \<noteq> Some ''true''"
    using that by (cases "archive s i now g") (simp add: deleteEvent_def split: sum.splits)
  have refused: "deleteEvent s i permanent now g =
      (Inl (InvalidTransition ''Event is already archived''), s)"
    if "permanent \<noteq> Some ''true''" "eventRepo_findById s i = Some ev" "status ev = Archived"
    using that by (simp add: deleteEvent_def archive_def)
  show ?thesis
    using hard soft refused eventRepo_delete_gone [of i s] archive_keeps_keys [of s i now g]
    by simp
qed

theorem deleteEvent_archives_unless_permanent_true_witness:
  "deleteEvent sample_db ''e3'' None 7 ''n9'' =
     (Inl (InvalidTransition ''Event is already archived''), sample_db) \<and>
   deleteEvent sample_db ''e3'' (Some ''TRUE'') 7 ''n9'' =
     (Inl (InvalidTransition ''Event is already archived''), sample_db) \<and>
   deleteEvent sample_db ''e3'' (Some ''1'') 7 ''n9'' =
     (Inl (InvalidTransition ''Event is already archived''), sample_db) \<and>
   deleteEvent sample_db ''e3'' (Some ''true'') 7 ''n9'' =
     (Inr 204, sample_db\<lparr>events := [launch, kickoff]\<rparr>)"
proof -
  have a: "status retro = Archived"
    by (simp add: retro_def)
  have del: "snd (eventRepo_delete sample_db ''e3'') = sample_db\<lparr>events := [launch, kickoff]\<rparr>"
    by (simp add: eventRepo_delete_def sample_defs)
  have "deleteEvent sample_db ''e3'' None 7 ''n9'' =
     (Inl (InvalidTransition ''Event is already archived''), sample_db)"
    using deleteEvent_archives_unless_permanent_true [of None sample_db "''e3''" 7 "''n9''" retro]
      sample_lookup(3) a by simp
  moreover have "deleteEvent sample_db ''e3'' (Some ''TRUE'') 7 ''n9'' =
     (Inl (InvalidTransition ''Event is already archived''), sample_db)"
    using deleteEvent_archives_unless_permanent_true [of "Some ''TRUE''" sample_db "''e3''" 7 "''n9''" retro]
      sample_lookup(3) a by simp
  moreover have "deleteEvent sample_db ''e3'' (Some ''1'') 7 ''n9'' =
     (Inl (InvalidTransition ''Event is already archived''), sample_db)"
    using deleteEvent_archives_unless_permanent_true [of "Some ''1''" sample_db "''e3''" 7 "''n9''" retro]
      sample_lookup(3) a by simp
  moreover have "deleteEvent sample_db ''e3'' (Some ''true'') 7 ''n9'' =
     (Inr 204, sample_db\<lparr>events := [launch, kickoff]\<rparr>)"
    using deleteEvent_archives_unless_permanent_true [of "Some ''true''" sample_db "''e3''" 7 "''n9''" retro]
      del by simp
  ultimately show ?thesis by simp
qed


subsection \<open>Duplicating\<close>

lemma copy_name_fits: "length n \<le> 248 \<Longrightarrow> varchar255 (n @ '' (Copy)'') = Inr (n @ '' (Copy)'')"
  by (rule varchar255_fits) simp

lemma copy_name_too_long:
  assumes "248 < length n"
  shows "varchar255 (n @ '' (Copy)'') =
           Inl (DbError ''value too long for type character varying(255)'')"
proof -
  let ?v = "n @ '' (Copy)''"
  have long: "255 < length ?v"
    using assms by simp
  then have "drop 255 ?v \<noteq> []"
    by (simp only: drop_eq_Nil not_le not_False_eq_True)
  then have "last (drop 255 ?v) \<in> set (drop 255 ?v)"
    by (rule last_in_set)
  moreover have "last (drop 255 ?v) = last ?v"
    using long by (rule last_drop)
  moreover have "last ?v = CHR '')''"
    by simp
  ultimately have "\<not> list_all (\<lambda>c. c = CHR '' '') (drop 255 ?v)"
    by (auto simp: list_all_iff)
  with long show ?thesis
    by (simp add: varchar255_def)
qed

lemma duplicate_refused_for_long_name:
  assumes found: "eventRepo_findById s i = Some src" and long: "248 < length (name src)"
  shows "duplicate s i now gen_eid gen_nid =
           (Inl (DbError ''value too long for type character varying(255)''), s)"
  using found copy_name_too_long [OF long]
  by (simp add: duplicate_def eventRepo_create_def)

text \<open>
  Every row that \<^verbatim>\<open>create\<close> stores, and every row that \<^verbatim>\<open>update\<close> rewrites from one that
  did, has a name and a location that fit their columns.
\<close>

lemma varchar255_null_length:
  "varchar255_null v = Inr w \<Longrightarrow> (case w of None \<Rightarrow> True | Some t \<Rightarrow> length t \<le> 255)"
  by (auto simp: varchar255_null_def dest: varchar255_length split: option.splits sum.splits)

lemma eventRepo_create_fits:
  assumes "eventRepo_create s g now d = Inr (row, s')"
  shows "length (name row) \<le> 255 \<and>
         (case location row of None \<Rightarrow> True | Some l \<Rightarrow> length l \<le> 255)"
proof -
  from assms obtain n l where fit: "varchar255 (new_name d) = Inr n"
      "varchar255_null (new_location d) = Inr l"
    and row: "row = new_event_row g now (d\<lparr>new_name := n, new_location := l\<rparr>)"
    by (auto simp: eventRepo_create_def Let_def split: sum.splits if_splits)
  from fit(1) have "length n \<le> 255"
    by (rule varchar255_length)
  moreover from fit(2) have "case l of None \<Rightarrow> True | Some t \<Rightarrow> length t \<le> 255"
    by (rule varchar255_null_length)
  ultimately show ?thesis
    by (simp add: row new_event_row_def)
qed

lemma eventRepo_update_fits:
  assumes "fit_changes c = Inr c'"
    and "length (name e) \<le> 255 \<and>
         (case location e of None \<Rightarrow> True | Some l \<Rightarrow> length l \<le> 255)"
  shows "length (name (apply_changes c' e)) \<le> 255 \<and>
         (case location (apply_changes c' e) of None \<Rightarrow> True | Some l \<Rightarrow> length l \<le> 255)"
proof -
  from assms(1) obtain n l where fit: "varchar255_null (c_name c) = Inr n"
      "(case c_location c of
          None \<Rightarrow> Inr None
        | Some v \<Rightarrow> (case varchar255_null v of Inl err \<Rightarrow> Inl err | Inr l \<Rightarrow> Inr (Some l))) = Inr l"
    and c': "c' = c\<lparr>c_name := n, c_location := l\<rparr>"
    by (auto simp: fit_changes_def split: sum.splits)
  from fit(1) have "case n of None \<Rightarrow> True | Some t \<Rightarrow> length t \<le> 255"
    by (rule varchar255_null_length)
  moreover from fit(2) have "case l of Some (Some t) \<Rightarrow> length t \<le> 255 | _ \<Rightarrow> True"
    by (auto dest: varchar255_null_length split: option.splits sum.splits)
  ultimately show ?thesis
    using assms(2) by (auto simp: c' apply_changes_def split: option.splits)
qed

text \<open>
  C6, as the code has it. For an event that exists and whose name has at most 248
  characters, so that the name of the copy goes into its column: when the two generated
  keys are new, \<^verbatim>\<open>duplicate(id)\<close> appends one new event, with the source name followed by
  \<^verbatim>\<open> (Copy)\<close>, the description, start date, end date, location and tags of the source, the
  status \<^verbatim>\<open>draft\<close> whatever the source status, and the generated key; no notification of
  the source is copied: the notifications are those from before and one more, titled
  "Event Duplicated", for the new event. Whenever \<^verbatim>\<open>duplicate(id)\<close> succeeds, that is
  its result, and the key of the new event differs from the source key. The location of
  the source fits its column, as that of every stored row does.
\<close>

theorem duplicate_copies_as_draft:
  assumes found: "eventRepo_findById s i = Some src"
    and short: "length (name src) \<le> 248"
    and stored: "case location src of None \<Rightarrow> True | Some l \<Rightarrow> length l \<le> 255"
  shows "(gen_eid \<notin> set (map eid (events s)) \<and> gen_nid \<notin> set (map nid (notifications s)) \<longrightarrow>
            duplicate s i now gen_eid gen_nid =
              (Inr (src\<lparr>eid := gen_eid, name := name src @ '' (Copy)'', status := Draft,
                        notificationCount := 0, createdAt := now, updatedAt := now\<rparr>),
               s\<lparr>events := events s @
                    [src\<lparr>eid := gen_eid, name := name src @ '' (Copy)'', status := Draft,
                         notificationCount := 0, createdAt := now, updatedAt := now\<rparr>],
                 notifications := notifications s @
                    [\<lparr> nid = gen_nid, eventId = gen_eid, title = ''Event Duplicated'',
                       message = Some (''Event '' @ quoted (name src @ '' (Copy)'') @
                                       '' has been created as a copy''),
                       isRead = 0, n_createdAt = now \<rparr>]\<rparr>)) \<and>
         (\<forall>r s'. duplicate s i now gen_eid gen_nid = (Inr r, s') \<longrightarrow>
            r = src\<lparr>eid := gen_eid, name := name src @ '' (Copy)'', status := Draft,
                    notificationCount := 0, createdAt := now, updatedAt := now\<rparr> \<and>
            eid r \<noteq> i \<and>
            events s' = events s @ [r] \<and>
            notifications s' = notifications s @
              [\<lparr> nid = gen_nid, eventId = gen_eid, title = ''Event Duplicated'',
                 message = Some (''Event '' @ quoted (name src @ '' (Copy)'') @
                                 '' has been created as a copy''),
                 isRead = 0, n_createdAt = now \<rparr>])"
proof -
  let ?d = "\<lparr> new_id = None, new_name = name src @ '' (Copy)'',
               new_description = description src, new_status = Some Draft,
               new_startDate = startDate src, new_endDate = endDate src,
               new_location = location src, new_tags = tags src,
               new_notificationCount = None, new_createdAt = None, new_updatedAt = None \<rparr>"
  let ?copy = "src\<lparr>eid := gen_eid, name := name src @ '' (Copy)'', status := Draft,
                   notificationCount := 0, createdAt := now, updatedAt := now\<rparr>"
  let ?s1 = "s\<lparr>events := events s @ [?copy]\<rparr>"
  let ?n = "\<lparr> nid = gen_nid, eventId = gen_eid, title = ''Event Duplicated'',
              message = Some (''Event '' @ quoted (name src @ '' (Copy)'') @
                              '' has been created as a copy''),
              isRead = 0, n_createdAt = now \<rparr>"
  let ?s2 = "s\<lparr>events := events s @ [?copy], notifications := notifications s @ [?n]\<rparr>"
  have row: "new_event_row gen_eid now ?d = ?copy"
    by (simp add: new_event_row_def)
  have loc: "varchar255_null (location src) = Inr (location src)"
    using stored by (rule varchar255_null_fits)
  have ins: "eventRepo_create s gen_eid now ?d =
      (if gen_eid \<in> set (map eid (events s))
       then Inl (DbError ''duplicate key value violates unique constraint events_pkey'')
       else Inr (?copy, ?s1))"
    using copy_name_fits [OF short] loc row
    by (simp add: eventRepo_create_def Let_def)
  have title: "varchar255 ''Event Duplicated'' = Inr ''Event Duplicated''"
    by (rule varchar255_fits) simp
  have recorded: "notificationRepo_create ?s1 gen_nid now
                (lifecycle_notification gen_eid ''Event Duplicated''
                   (''Event '' @ quoted (name src @ '' (Copy)'') @ '' has been created as a copy'')) =
      (if gen_nid \<in> set (map nid (notifications s))
       then Inl (DbError ''duplicate key value violates unique constraint notifications_pkey'')
       else Inr (?n, ?s2))"
    using title
    by (simp add: notificationRepo_create_def new_notification_row_def lifecycle_notification_def
        Let_def)
  have run: "duplicate s i now gen_eid gen_nid =
      (if gen_eid \<in> set (map eid (events s))
       then (Inl (DbError ''duplicate key value violates unique constraint events_pkey''), s)
       else if gen_nid \<in> set (map nid (notifications s))
       then (Inl (DbError ''duplicate key value violates unique constraint notifications_pkey''), ?s1)
       else (Inr ?copy, ?s2))"
    using found ins recorded by (simp add: duplicate_def formatForResponse_def)
  have key: "i \<in> set (map eid (events s))"
    using found by (rule findById_key)
  have fresh: "duplicate s i now gen_eid gen_nid = (Inr ?copy, ?s2)"
    if "gen_eid \<notin> set (map eid (events s)) \<and> gen_nid \<notin> set (map nid (notifications s))"
    using that run by simp
  have any: "r = ?copy \<and> eid r \<noteq> i \<and> events s' = events s @ [r] \<and>
             notifications s' = notifications s @ [?n]"
    if "duplicate s i now gen_eid gen_nid = (Inr r, s')" for r s'
  proof -
    from that run have new: "gen_eid \<notin> set (map eid (events s))"
      and res: "r = ?copy" "s' = ?s2"
      by (auto split: if_splits)
    from new key have "gen_eid \<noteq> i"
      by auto
    with res show ?thesis
      by simp
  qed
  from fresh any show ?thesis
    by blast
qed

theorem duplicate_copies_as_draft_witness:
  "eventRepo_findById summit_db ''e5'' = Some summit \<and>
   length (name summit) \<le> 248 \<and> location summit = Some ''Lisbon'' \<and>
   status summit = Published \<and>
   ''e9'' \<notin> set (map eid (events summit_db)) \<and>
   ''n9'' \<notin> set (map nid (notifications summit_db)) \<and>
   duplicate summit_db ''e5'' 7 ''e9'' ''n9'' =
     (Inr \<lparr> eid = ''e9'', name = ''Summit (Copy)'', description = Some ''Yearly summit'',
             status = Draft, startDate = 30, endDate = Some 40, location = Some ''Lisbon'',
             tags = Some [''yearly'', ''all hands''], notificationCount = 0,
             createdAt = 7, updatedAt = 7 \<rparr>,
      \<lparr> events = [summit, long_named,
                   \<lparr> eid = ''e9'', name = ''Summit (Copy)'', description = Some ''Yearly summit'',
                      status = Draft, startDate = 30, endDate = Some 40,
                      location = Some ''Lisbon'', tags = Some [''yearly'', ''all hands''],
                      notificationCount = 0, createdAt = 7, updatedAt = 7 \<rparr>],
         notifications = [note_summit,
                   \<lparr> nid = ''n9'', eventId = ''e9'', title = ''Event Duplicated'',
                      message = Some (''Event '' @ quoted ''Summit (Copy)'' @
                                      '' has been created as a copy''),
                      isRead = 0, n_createdAt = 7 \<rparr>] \<rparr>) \<and>
   ''e9'' \<noteq> ''e5''"
proof -
  have found: "eventRepo_findById summit_db ''e5'' = Some summit"
    by (simp add: eventRepo_findById_def summit_db_def summit_def)
  have short: "length (name summit) \<le> 248"
    by (simp add: summit_def)
  have stored: "case location summit of None \<Rightarrow> True | Some l \<Rightarrow> length l \<le> 255"
    by (simp add: summit_def)
  have new: "''e9'' \<notin> set (map eid (events summit_db))"
      "''n9'' \<notin> set (map nid (notifications summit_db))"
    by (simp_all add: summit_db_def summit_def long_named_def note_summit_def)
  from duplicate_copies_as_draft [OF found short stored, of "''e9''" "''n9''" 7,
      THEN conjunct1, THEN mp, OF conjI [OF new]]
  have "duplicate summit_db ''e5'' 7 ''e9'' ''n9'' =
     (Inr \<lparr> eid = ''e9'', name = ''Summit (Copy)'', description = Some ''Yearly summit'',
             status = Draft, startDate = 30, endDate = Some 40, location = Some ''Lisbon'',
             tags = Some [''yearly'', ''all hands''], notificationCount = 0,
             createdAt = 7, updatedAt = 7 \<rparr>,
      \<lparr> events = [summit, long_named,
                   \<lparr> eid = ''e9'', name = ''Summit (Copy)'', description = Some ''Yearly summit'',
                      status = Draft, startDate = 30, endDate = Some 40,
                      location = Some ''Lisbon'', tags = Some [''yearly'', ''all hands''],
                      notificationCount = 0, createdAt = 7, updatedAt = 7 \<rparr>],
         notifications = [note_summit,
                   \<lparr> nid = ''n9'', eventId = ''e9'', title = ''Event Duplicated'',
                      message = Some (''Event '' @ quoted ''Summit (Copy)'' @
                                      '' has been created as a copy''),
                      isRead = 0, n_createdAt = 7 \<rparr>] \<rparr>)"
    by (simp add: summit_db_def summit_def)
  moreover have "location summit = Some ''Lisbon''" "status summit = Published"
    by (simp_all add: summit_def)
  ultimately show ?thesis
    using found short new by simp
qed

text \<open>
  C6 as it is worded fails for a name that leaves no room for the suffix. The stored
  event has a name of 249 characters; with \<^verbatim>\<open> (Copy)\<close> it has 256, the column takes 255,
  and \<^verbatim>\<open>duplicate\<close> ends in the error of the database with nothing created.
\<close>

theorem duplicate_counterexample:
  "eventRepo_findById summit_db ''e6'' = Some long_named \<and>
   length (name long_named) = 249 \<and>
   duplicate summit_db ''e6'' 7 ''e9'' ''n9'' =
     (Inl (DbError ''value too long for type character varying(255)''), summit_db)"
proof -
  have found: "eventRepo_findById summit_db ''e6'' = Some long_named"
    by (simp add: eventRepo_findById_def summit_db_def summit_def long_named_def)
  have len: "length (name long_named) = 249"
    by (simp add: long_named_def)
  then have "248 < length (name long_named)"
    by simp
  from duplicate_refused_for_long_name [OF found this] found len show ?thesis
    by simp
qed

subsection \<open>Reading notifications\<close>

lemma find_marked:
  "find (\<lambda>m. nid m = i) (map (\<lambda>m. if nid m = i then m\<lparr>isRead := 1\<rparr> else m) xs) =
     map_option (\<lambda>m. m\<lparr>isRead := 1\<rparr>) (find (\<lambda>m. nid m = i) xs)"
  by (induction xs) simp_all

text \<open>
  C7. \<^verbatim>\<open>markAsRead\<close> is idempotent. For a notification that exists, the first call returns
  it with \<^verbatim>\<open>isRead = 1\<close>; a second call on the database the first one left returns
  the same notification, raises no error and leaves that database as it is. A call on
  a notification that is already read returns it and the database untouched.
\<close>

theorem markAsRead_idempotent:
  assumes found: "notificationRepo_findById s i = Some n"
  shows "fst (markAsRead s i) = Inr (Some (n\<lparr>isRead := 1\<rparr>)) \<and>
         markAsRead (snd (markAsRead s i)) i =
           (Inr (Some (n\<lparr>isRead := 1\<rparr>)), snd (markAsRead s i)) \<and>
         (isRead n = 1 \<longrightarrow> markAsRead s i = (Inr (Some n), s))"
proof (cases "isRead n = 1")
  case True
  then have same: "n\<lparr>isRead := 1\<rparr> = n"
    by simp
  from found True have "markAsRead s i = (Inr (Some n), s)"
    by (simp add: markAsRead_def formatForResponse_def)
  then show ?thesis
    by (simp add: same)
next
  case False
  let ?s1 = "s\<lparr>notifications := map (\<lambda>m. if nid m = i then m\<lparr>isRead := 1\<rparr> else m) (notifications s)\<rparr>"
  from found obtain r where "filter (\<lambda>m. nid m = i) (notifications s) = n # r"
    unfolding notificationRepo_findById_def using find_filter_Cons by fastforce
  with found False have first: "markAsRead s i = (Inr (Some (n\<lparr>isRead := 1\<rparr>)), ?s1)"
    by (simp add: markAsRead_def notificationRepo_markAsRead_def formatForResponse_def)
  have "notificationRepo_findById ?s1 i = Some (n\<lparr>isRead := 1\<rparr>)"
    using found by (simp add: notificationRepo_findById_def find_marked)
  then have "markAsRead ?s1 i = (Inr (Some (n\<lparr>isRead := 1\<rparr>)), ?s1)"
    by (simp add: markAsRead_def formatForResponse_def)
  with first False show ?thesis
    by simp
qed

theorem markAsRead_idempotent_witness:
  "notificationRepo_findById sample_db ''n2'' = Some note_unread \<and>
   markAsRead sample_db ''n2'' =
     (Inr (Some (note_unread\<lparr>isRead := 1\<rparr>)),
      sample_db\<lparr>notifications := [note_read, note_unread\<lparr>isRead := 1\<rparr>, note_other]\<rparr>) \<and>
   markAsRead (sample_db\<lparr>notifications := [note_read, note_unread\<lparr>isRead := 1\<rparr>, note_other]\<rparr>) ''n2'' =
     (Inr (Some (note_unread\<lparr>isRead := 1\<rparr>)),
      sample_db\<lparr>notifications := [note_read, note_unread\<lparr>isRead := 1\<rparr>, note_other]\<rparr>)"
proof -
  have found: "notificationRepo_findById sample_db ''n2'' = Some note_unread"
    by (simp add: notificationRepo_findById_def sample_defs)
  have first: "markAsRead sample_db ''n2'' =
     (Inr (Some (note_unread\<lparr>isRead := 1\<rparr>)),
      sample_db\<lparr>notifications := [note_read, note_unread\<lparr>isRead := 1\<rparr>, note_other]\<rparr>)"
    by (simp add: markAsRead_def notificationRepo_findById_def notificationRepo_markAsRead_def
        formatForResponse_def sample_defs)
  from markAsRead_idempotent [OF found] first show ?thesis
    using found by simp
qed

text \<open>
  C8, as the code has it. \<^verbatim>\<open>markAllReadForEvent(eventId)\<close> sets \<^verbatim>\<open>isRead\<close> to 1 on every
  notification of that event and changes nothing else: a notification of another event,
  and one that was already read, is as before, and the events are as before. It returns
  all notifications of the event, each as stored afterwards, those that were read before
  included; the unread ones of the event are among them, now read.
\<close>

theorem markAllReadForEvent_marks_and_returns_all:
  "events (snd (markAllReadForEvent s e)) = events s \<and>
   length (notifications (snd (markAllReadForEvent s e))) = length (notifications s) \<and>
   (\<forall>k < length (notifications s).
      (eventId (notifications s ! k) = e \<longrightarrow>
         notifications (snd (markAllReadForEvent s e)) ! k = (notifications s ! k)\<lparr>isRead := 1\<rparr>) \<and>
      (eventId (notifications s ! k) \<noteq> e \<or> isRead (notifications s ! k) = 1 \<longrightarrow>
         notifications (snd (markAllReadForEvent s e)) ! k = notifications s ! k)) \<and>
   fst (markAllReadForEvent s e) =
     filter (\<lambda>n. eventId n = e) (notifications (snd (markAllReadForEvent s e))) \<and>
   (\<forall>n \<in> set (fst (markAllReadForEvent s e)). isRead n = 1) \<and>
   (\<forall>n \<in> set (notifications s). eventId n = e \<and> isRead n = 0 \<longrightarrow>
      n\<lparr>isRead := 1\<rparr> \<in> set (fst (markAllReadForEvent s e)))"
proof -
  let ?mark = "\<lambda>n. if eventId n = e then n\<lparr>isRead := 1\<rparr> else n"
  let ?ns = "notifications s"
  have run: "markAllReadForEvent s e =
      (map (\<lambda>n. n\<lparr>isRead := 1\<rparr>) (filter (\<lambda>n. eventId n = e) ?ns),
       s\<lparr>notifications := map ?mark ?ns\<rparr>)"
    by (simp add: markAllReadForEvent_def notificationRepo_markAllAsReadForEvent_def
        formatForResponse_def)
  have returned: "map (\<lambda>n. n\<lparr>isRead := 1\<rparr>) (filter (\<lambda>n. eventId n = e) xs) =
      filter (\<lambda>n. eventId n = e) (map ?mark xs)" for xs
    by (induction xs) simp_all
  have c1: "events (snd (markAllReadForEvent s e)) = events s"
    by (simp add: run)
  have c2: "length (notifications (snd (markAllReadForEvent s e))) = length ?ns"
    by (simp add: run)
  have c3: "(eventId (?ns ! k) = e \<longrightarrow>
         notifications (snd (markAllReadForEvent s e)) ! k = (?ns ! k)\<lparr>isRead := 1\<rparr>) \<and>
      (eventId (?ns ! k) \<noteq> e \<or> isRead (?ns ! k) = 1 \<longrightarrow>
         notifications (snd (markAllReadForEvent s e)) ! k = ?ns ! k)" if "k < length ?ns" for k
  proof -
    have "notifications (snd (markAllReadForEvent s e)) ! k = ?mark (?ns ! k)"
      using that by (simp add: run)
    then show ?thesis by simp
  qed
  have c4: "fst (markAllReadForEvent s e) =
     filter (\<lambda>n. eventId n = e) (notifications (snd (markAllReadForEvent s e)))"
    by (simp add: run returned)
  have c5: "isRead n = 1" if "n \<in> set (fst (markAllReadForEvent s e))" for n
    using that by (auto simp: run)
  have c6: "n\<lparr>isRead := 1\<rparr> \<in> set (fst (markAllReadForEvent s e))"
    if "n \<in> set ?ns" "eventId n = e \<and> isRead n = 0" for n
    using that by (simp add: run)
  from c1 c2 c3 c4 c5 c6 show ?thesis
    by blast
qed

theorem markAllReadForEvent_marks_and_returns_all_witness:
  "markAllReadForEvent sample_db ''e1'' =
     ([note_read, note_unread\<lparr>isRead := 1\<rparr>],
      sample_db\<lparr>notifications := [note_read, note_unread\<lparr>isRead := 1\<rparr>, note_other]\<rparr>) \<and>
   note_unread \<in> set (notifications sample_db) \<and> eventId note_unread = ''e1'' \<and>
   isRead note_unread = 0 \<and>
   note_unread\<lparr>isRead := 1\<rparr> \<in> set (fst (markAllReadForEvent sample_db ''e1'')) \<and>
   (2::nat) < length (notifications sample_db) \<and>
   eventId (notifications sample_db ! 2) \<noteq> ''e1'' \<and>
   notifications (snd (markAllReadForEvent sample_db ''e1'')) ! 2 = notifications sample_db ! 2"
proof -
  have run: "markAllReadForEvent sample_db ''e1'' =
     ([note_read, note_unread\<lparr>isRead := 1\<rparr>],
      sample_db\<lparr>notifications := [note_read, note_unread\<lparr>isRead := 1\<rparr>, note_other]\<rparr>)"
    by (simp add: markAllReadForEvent_def notificationRepo_markAllAsReadForEvent_def
        formatForResponse_def sample_defs)
  have unread: "note_unread \<in> set (notifications sample_db)" "eventId note_unread = ''e1''"
      "isRead note_unread = 0"
    by (simp_all add: sample_defs)
  have other: "(2::nat) < length (notifications sample_db)"
      "eventId (notifications sample_db ! 2) \<noteq> ''e1''"
    by (simp_all add: sample_defs)
  note all = markAllReadForEvent_marks_and_returns_all [of sample_db "''e1''"]
  from all unread have "note_unread\<lparr>isRead := 1\<rparr> \<in> set (fst (markAllReadForEvent sample_db ''e1''))"
    by blast
  moreover from all other
  have "notifications (snd (markAllReadForEvent sample_db ''e1'')) ! 2 = notifications sample_db ! 2"
    by blast
  ultimately show ?thesis
    using run unread other by simp
qed

text \<open>
  C8 as it is worded fails on what is returned. Event \<^verbatim>\<open>e1\<close> has one notification that is
  read and one that is unread: the call flips the unread one only, and returns both.
\<close>

theorem markAllReadForEvent_counterexample:
  "filter (\<lambda>n. eventId n = ''e1'' \<and> isRead n = 0) (notifications sample_db) = [note_unread] \<and>
   fst (markAllReadForEvent sample_db ''e1'') = [note_read, note_unread\<lparr>isRead := 1\<rparr>] \<and>
   note_read \<in> set (notifications sample_db) \<and> isRead note_read = 1 \<and>
   fst (markAllReadForEvent sample_db ''e1'') \<noteq> [note_unread\<lparr>isRead := 1\<rparr>]"
  by (simp add: markAllReadForEvent_def notificationRepo_markAllAsReadForEvent_def
      formatForResponse_def sample_defs)


subsection \<open>Date ordering\<close>

text \<open>
  What holds of the rule "an end date is after the start date": a create or an update
  that succeeds returns an event that obeys it (for an update, given that the stored
  event did), and an input that breaks it is rejected with the database as before.
\<close>

lemma create_rejects_disordered:
  assumes "new_endDate d = Some e" and "e \<le> new_startDate d"
  shows "event_create s d now gen_eid gen_nid =
           (Inl (ValidationFailed ''End date must be after start date''), s)"
  using assms by (simp add: event_create_def validateEventDates_def)

lemma create_dates_ordered:
  assumes "event_create s d now gen_eid gen_nid = (Inr ev, s')"
  shows "\<forall>e. endDate ev = Some e \<longrightarrow> startDate ev < e"
proof (cases "validateEventDates (new_startDate d) (new_endDate d)")
  case (Inl err)
  with assms show ?thesis by (simp add: event_create_def)
next
  case (Inr u)
  then have ok: "\<forall>e. new_endDate d = Some e \<longrightarrow> new_startDate d < e"
    by (auto simp: validateEventDates_def split: option.splits if_splits)
  let ?data = "d\<lparr> new_status := Some (case new_status d of Some st \<Rightarrow> st | None \<Rightarrow> Draft),
                    new_updatedAt := Some now \<rparr>"
  from assms Inr obtain n l where
      "ev = new_event_row gen_eid now (?data\<lparr>new_name := n, new_location := l\<rparr>)"
    by (auto simp: event_create_def eventRepo_create_def formatForResponse_def Let_def
        split: if_splits sum.splits prod.splits)
  with ok show ?thesis by (simp add: new_event_row_def)
qed

lemma update_rejects_disordered:
  assumes found: "eventRepo_findById s i = Some ev"
    and stored: "\<forall>e. endDate ev = Some e \<longrightarrow> startDate ev < e"
    and merged: "(case c_endDate ch of Some v \<Rightarrow> v | None \<Rightarrow> endDate ev) = Some e"
    and bad: "e \<le> (case c_startDate ch of Some d \<Rightarrow> d | None \<Rightarrow> startDate ev)"
  shows "event_update s i ch now gen_nid =
           (Inl (ValidationFailed ''End date must be after start date''), s)"
proof -
  have given: "c_startDate ch \<noteq> None \<or> truthy_date (c_endDate ch)"
    using stored merged bad by (auto simp: truthy_date_def split: option.splits)
  have eff: "(case c_endDate ch of Some (Some d) \<Rightarrow> Some d | _ \<Rightarrow> endDate ev) = Some e"
    using merged by (auto split: option.splits)
  have "validateEventDates (case c_startDate ch of Some d \<Rightarrow> d | None \<Rightarrow> startDate ev)
          (case c_endDate ch of Some (Some d) \<Rightarrow> Some d | _ \<Rightarrow> endDate ev) \<noteq> Inr ()"
    unfolding eff using bad by (simp add: validateEventDates_def)
  with found given show ?thesis by (rule event_update_rejected)
qed

lemma update_dates_ordered:
  assumes found: "eventRepo_findById s i = Some ev"
    and stored: "\<forall>e. endDate ev = Some e \<longrightarrow> startDate ev < e"
    and succ: "event_update s i ch now gen_nid = (Inr u, s')"
  shows "\<forall>e. endDate u = Some e \<longrightarrow> startDate u < e"
proof -
  let ?sd = "case c_startDate ch of Some d \<Rightarrow> d | None \<Rightarrow> startDate ev"
  let ?ed = "case c_endDate ch of Some (Some d) \<Rightarrow> Some d | _ \<Rightarrow> endDate ev"
  have ok: "validateEventDates ?sd ?ed = Inr ()"
    if given: "c_startDate ch \<noteq> None \<or> truthy_date (c_endDate ch)"
  proof (rule ccontr)
    assume "validateEventDates ?sd ?ed \<noteq> Inr ()"
    from event_update_rejected [OF found given this, of now gen_nid] succ
    show False by simp
  qed
  obtain c where fit: "fit_changes (ch\<lparr>c_updatedAt := Some now\<rparr>) = Inr c"
  proof (cases "fit_changes (ch\<lparr>c_updatedAt := Some now\<rparr>)")
    case (Inl err)
    from event_update_too_long [OF found ok Inl, where g = gen_nid] succ
    show ?thesis by simp
  next
    case (Inr c)
    then show ?thesis by (rule that)
  qed
  from fit_changes_fields [OF fit]
  have dates: "c_startDate c = c_startDate ch" "c_endDate c = c_endDate ch"
    by simp_all
  from event_update_accepted [OF found ok fit, where g = gen_nid] succ
  have u: "u = apply_changes c ev"
    by (auto simp: Let_def split: if_splits)
  have checked: "\<forall>e. ?ed = Some e \<longrightarrow> ?sd < e"
    if "c_startDate ch \<noteq> None \<or> truthy_date (c_endDate ch)"
    using ok [OF that] by (auto simp: validateEventDates_def split: option.splits if_splits)
  show ?thesis
  proof (cases "c_startDate ch \<noteq> None \<or> truthy_date (c_endDate ch)")
    case True
    from checked [OF True] show ?thesis
      unfolding u by (auto simp: apply_changes_def dates split: option.splits)
  next
    case False
    with stored show ?thesis
      unfolding u by (auto simp: apply_changes_def dates truthy_date_def split: option.splits)
  qed
qed

text \<open>
  C1 at the input where the code leaves it. The stored event runs from 10 to 50. The
  change set moves the start to 60 and clears the end date (\<^verbatim>\<open>endDate: null\<close>): the event
  it describes has no end date, so no ordering to break. The code checks the new start
  against the stored end date, which \<^verbatim>\<open>changes.endDate || existing.endDate\<close> yields for
  \<^verbatim>\<open>null\<close>, and rejects the update.
\<close>

theorem update_checks_cleared_endDate_against_stored:
  "startDate launch = 10 \<and> endDate launch = Some 50 \<and>
   startDate (apply_changes (no_changes\<lparr>c_startDate := Some 60, c_endDate := Some None\<rparr>) launch) = 60 \<and>
   endDate (apply_changes (no_changes\<lparr>c_startDate := Some 60, c_endDate := Some None\<rparr>) launch) = None \<and>
   event_update sample_db ''e1'' (no_changes\<lparr>c_startDate := Some 60, c_endDate := Some None\<rparr>) 7 ''n9'' =
     (Inl (ValidationFailed ''End date must be after start date''), sample_db)"
  by (simp add: update_defs sample_defs)

theorem update_checks_cleared_endDate_against_stored_witness:
  "fst (event_update sample_db ''e1''
          (no_changes\<lparr>c_startDate := Some 60, c_endDate := Some None\<rparr>) 7 ''n9'') =
     Inl (ValidationFailed ''End date must be after start date'') \<and>
   snd (event_update sample_db ''e1''
          (no_changes\<lparr>c_startDate := Some 60, c_endDate := Some None\<rparr>) 7 ''n9'') = sample_db"
  using update_checks_cleared_endDate_against_stored by simp


subsection \<open>Listing\<close>

lemma like_percent_only: "like_match ''%'' s"
  by (induction s) simp_all

lemma like_percent_percent: "like_match ''%%'' s"
  by (induction s) (simp_all add: like_percent_only)





lemma status_label_parsed: "status_of_label (status_label st) = Some st \<and> status_label st \<noteq> []"
  by (cases st) (simp_all add: status_label_def status_of_label_def)

lemma filter_conditions_pattern:
  "\<exists>conditions. filter_conditions searchText (map_option status_label st) = Inr conditions \<and>
                 where_all conditions = pattern_matches searchText st"
proof -
  let ?c1 = "case searchText of Some t \<Rightarrow> if t \<noteq> [] then [searchCondition t] else [] | None \<Rightarrow> []"
  let ?c2 = "case st of Some v \<Rightarrow> [\<lambda>e. status e = v] | None \<Rightarrow> []"
  have built: "filter_conditions searchText (map_option status_label st) = Inr (?c1 @ ?c2)"
    using status_label_parsed by (cases st) (simp_all add: filter_conditions_def Let_def)
  have search: "list_all (\<lambda>c. c e) ?c1 \<longleftrightarrow>
      (case searchText of
         None \<Rightarrow> True
       | Some t \<Rightarrow> ilike (name e) (''%'' @ t @ ''%'') \<or>
                  (case tags e of
                     None \<Rightarrow> False
                   | Some ts \<Rightarrow> list_ex (\<lambda>tag. ilike tag (''%'' @ t @ ''%'')) ts))" for e
  proof (cases searchText)
    case None
    then show ?thesis by simp
  next
    case (Some t)
    show ?thesis
    proof (cases "t = []")
      case True
      with Some like_percent_percent show ?thesis by (simp add: ilike_def)
    next
      case False
      with Some show ?thesis by (simp add: searchCondition_def Let_def split: option.splits)
    qed
  qed
  have stat: "list_all (\<lambda>c. c e) ?c2 \<longleftrightarrow> (case st of None \<Rightarrow> True | Some v \<Rightarrow> status e = v)" for e
    by (cases st) simp_all
  have "where_all (?c1 @ ?c2) e = pattern_matches searchText st e" for e
    unfolding where_all_def pattern_matches_def list_all_append search stat ..
  then have "where_all (?c1 @ ?c2) = pattern_matches searchText st"
    by (rule ext)
  with built show ?thesis by blast
qed



lemma map_formatForResponse: "map formatForResponse xs = xs"
  by (induction xs) (simp_all add: formatForResponse_def)


lemma listEvents_negative_offset:
  assumes "(page - 1) * pageSize < 0"
  shows "listEvents s arrange page pageSize searchText (map_option status_label st) =
           Inl (DbError ''OFFSET must not be negative'')"
proof -
  from filter_conditions_pattern [of searchText st] obtain conditions
    where fc: "filter_conditions searchText (map_option status_label st) = Inr conditions"
    by blast
  from assms show ?thesis
    by (simp add: listEvents_def findWithFilters_def findAll_def fc Let_def)
qed

lemma listEvents_negative_pageSize:
  assumes "pageSize < 0" and "0 \<le> (page - 1) * pageSize"
  shows "\<exists>meta. listEvents s arrange page pageSize searchText (map_option status_label st) =
           Inr \<lparr> r_data = drop (nat ((page - 1) * pageSize))
                              (arrange (map (with_notificationCount s)
                                 (filter (pattern_matches searchText st) (events s)))),
                 r_meta = meta \<rparr>"
proof -
  from filter_conditions_pattern [of searchText st] obtain conditions
    where fc: "filter_conditions searchText (map_option status_label st) = Inr conditions"
      and wa: "where_all conditions = pattern_matches searchText st"
    by blast
  from assms show ?thesis
    by (simp add: listEvents_def findWithFilters_def findAll_def countWithFilters_def fc wa
        Let_def not_less map_formatForResponse)
qed








end
